theory Spec2Isabelle
  imports
    Complex_Main
    "HOL-Library.Char_ord"
    "HOL-Library.List_Lexorder"
    "HOL-Library.Sublist"
    "HOL-Library.Multiset"
begin

section \<open>Python values, exceptions and dates\<close>

text \<open>
  The purchase and transaction records of the matching engine are Python dictionaries
  decoded from JSON. A field read with \<^verbatim>\<open>d.get(k)\<close> may be absent, \<^verbatim>\<open>None\<close>, a string or a
  number, and the source guards against exactly these (\<^verbatim>\<open>not x\<close>, \<^verbatim>\<open>isinstance(x, str)\<close>,
  \<^verbatim>\<open>str(x)\<close>). Such a field is a \<open>pyval\<close>; an absent key is \<open>None\<close> of \<open>pyval option\<close>.

  A Python string is a list of code points (\<open>ustr\<close>); \<open>u\<close> turns a literal of
  the theory into one. The tags the engine attaches to a match are literals of the
  source and stay \<open>string\<close>s.
\<close>

type_synonym ustr = "int list"

definition u :: "string \<Rightarrow> ustr" where
  "u s = map of_char s"

datatype pyval = PNone | PStr ustr | PInt int

text \<open>The truth value Python gives to \<^verbatim>\<open>if x\<close>.\<close>

fun truthy :: "pyval \<Rightarrow> bool" where
  "truthy PNone = False"
| "truthy (PStr s) = (s \<noteq> [])"
| "truthy (PInt i) = (i \<noteq> 0)"

text \<open>\<^verbatim>\<open>a or b\<close>: the first operand when it is truthy, the second otherwise.\<close>

definition py_or :: "pyval \<Rightarrow> pyval \<Rightarrow> pyval" where
  "py_or a b = (if truthy a then a else b)"

text \<open>\<^verbatim>\<open>d.get(k)\<close> and \<^verbatim>\<open>d.get(k, default)\<close>.\<close>

definition get :: "pyval option \<Rightarrow> pyval" where
  "get f = (case f of None \<Rightarrow> PNone | Some v \<Rightarrow> v)"

definition get_default :: "pyval option \<Rightarrow> pyval \<Rightarrow> pyval" where
  "get_default f d = (case f of None \<Rightarrow> d | Some v \<Rightarrow> v)"

text \<open>\<^verbatim>\<open>str(x)\<close>: decimal digits for an integer, the text \<^verbatim>\<open>None\<close> for \<^verbatim>\<open>None\<close>.\<close>

fun str_nat :: "nat \<Rightarrow> string" where
  "str_nat n =
     (if n < 10 then [char_of (48 + n)]
      else str_nat (n div 10) @ [char_of (48 + n mod 10)])"

declare str_nat.simps [simp del]

definition str_int :: "int \<Rightarrow> string" where
  "str_int i = (if i < 0 then CHR ''-'' # str_nat (nat (- i)) else str_nat (nat i))"

fun str :: "pyval \<Rightarrow> ustr" where
  "str PNone = u ''None''"
| "str (PStr s) = s"
| "str (PInt i) = u (str_int i)"

text \<open>\<^verbatim>\<open>a in b\<close> on strings: \<open>a\<close> occurs in \<open>b\<close> as a contiguous substring.\<close>

definition str_in :: "ustr \<Rightarrow> ustr \<Rightarrow> bool" where
  "str_in a b = sublist a b"

text \<open>
  Exceptions carry their message, which \<^verbatim>\<open>str(e)\<close> returns. \<open>Raised\<close> stands for any
  other subclass of \<^verbatim>\<open>Exception\<close> (a failed request, a failed import).
\<close>

datatype py_error =
    ValueError ustr
  | TypeError ustr
  | ZeroDivisionError ustr
  | Raised ustr

fun str_error :: "py_error \<Rightarrow> ustr" where
  "str_error (ValueError m) = m"
| "str_error (TypeError m) = m"
| "str_error (ZeroDivisionError m) = m"
| "str_error (Raised m) = m"

text \<open>
  A \<^verbatim>\<open>datetime\<close>: the wall-clock reading in microseconds from a fixed origin, and the
  offset of its time zone when it has one (\<open>None\<close> is a naive datetime).
\<close>

record datetime =
  wall :: int
  utcoffset :: "int option"

text \<open>\<^verbatim>\<open>d.replace(tzinfo=None)\<close> keeps the reading and drops the zone.\<close>

definition replace_tzinfo_None :: "datetime \<Rightarrow> datetime" where
  "replace_tzinfo_None d = d\<lparr>utcoffset := None\<rparr>"

text \<open>
  \<^verbatim>\<open>a - b\<close> on datetimes gives a \<^verbatim>\<open>timedelta\<close> (here: microseconds). Python refuses to
  subtract a naive datetime from an aware one and conversely.
\<close>

definition datetime_sub :: "datetime \<Rightarrow> datetime \<Rightarrow> py_error + int" where
  "datetime_sub a b =
     (case (utcoffset a, utcoffset b) of
        (None, None) \<Rightarrow> Inr (wall a - wall b)
      | (Some oa, Some ob) \<Rightarrow> Inr ((wall a - oa) - (wall b - ob))
      | _ \<Rightarrow> Inl (TypeError (u ''can't subtract offset-naive and offset-aware datetimes'')))"

definition usec_per_day :: int where
  "usec_per_day = 86400000000"

text \<open>
  \<^verbatim>\<open>timedelta.days\<close>: a timedelta is normalised with \<^verbatim>\<open>0 <= seconds < 86400\<close>, so the
  days are the floor of the difference, negative differences rounding away from zero.
\<close>

definition days :: "int \<Rightarrow> int" where
  "days td = td div usec_per_day"

text \<open>\<^verbatim>\<open>s.replace('Z', '+00:00')\<close> replaces every occurrence.\<close>

definition replace_Z :: "ustr \<Rightarrow> ustr" where
  "replace_Z s = concat (map (\<lambda>c. if c = of_char CHR ''Z'' then u ''+00:00'' else [c]) s)"

text \<open>
  What the engine takes from the standard library and cannot be read off the source:
  \<^verbatim>\<open>datetime.fromisoformat\<close>, whose accepted strings depend on the Python version, and
  the tables of the Unicode database behind the classes \<^verbatim>\<open>\d\<close> (\<^verbatim>\<open>str.isdecimal\<close>) and
  \<^verbatim>\<open>\w\<close> (\<^verbatim>\<open>str.isalnum\<close> or an underscore) of the module \<^verbatim>\<open>re\<close>. The engine is
  modelled over an arbitrary such library \<open>lib\<close>.
\<close>

record stdlib =
  fromisoformat :: "ustr \<Rightarrow> py_error + datetime"
  isdecimal :: "int \<Rightarrow> bool"
  isalnum :: "int \<Rightarrow> bool"

section \<open>Binary floating point\<close>

text \<open>
  Amounts are Python floats. A float is the real number it denotes; an operation gives
  the double nearest to the exact result, ties to even (\<open>round_double\<close>, written
  \<open>fl\<close>). Overflow to infinity (beyond \<open>2 ^ 1024\<close>) is left out. The total of a
  purchase is read from JSON and is itself a double. The weights of strategy 2 are
  added as reals: the float sums differ from them in the last place only, and no
  comparison of the source falls between.
\<close>

function bitlen :: "int \<Rightarrow> int" where
  "bitlen n = (if n \<le> 0 then 0 else 1 + bitlen (n div 2))"
  by pat_completeness auto
termination
  by (relation "measure nat") auto

declare bitlen.simps [simp del]

text \<open>The integer \<open>e\<close> with \<open>2 ^ e \<le> a < 2 ^ (e + 1)\<close>, for positive \<open>a\<close>.\<close>

definition ilog2 :: "real \<Rightarrow> int" where
  "ilog2 a = (if 1 \<le> a then bitlen \<lfloor>a\<rfloor> - 1 else - bitlen (\<lceil>1 / a\<rceil> - 1))"

definition round_half_even :: "real \<Rightarrow> int" where
  "round_half_even r =
     (let f = \<lfloor>r\<rfloor>; d = r - of_int f
      in if d < 1 / 2 then f
         else if 1 / 2 < d then f + 1
         else if even f then f else f + 1)"

definition round_double :: "real \<Rightarrow> real" where
  "round_double x =
     (if x = 0 then 0
      else (let a = \<bar>x\<bar>;
                e = max (ilog2 a - 52) (- 1074);
                m = round_half_even (a / 2 powi e)
            in sgn x * of_int m * 2 powi e))"

abbreviation fl :: "real \<Rightarrow> real" where
  "fl \<equiv> round_double"

text \<open>\<^verbatim>\<open>abs(x - y)\<close> on floats.\<close>

definition float_diff :: "real \<Rightarrow> real \<Rightarrow> real" where
  "float_diff x y = \<bar>fl (x - y)\<bar>"

section \<open>Regular expressions of the extraction helpers\<close>

text \<open>
  The patterns of \<^verbatim>\<open>_extract_email\<close> and \<^verbatim>\<open>_extract_last_four\<close> are sequences of
  character classes, each repeated between a least and a greatest number of times, with
  at most one capturing group around a single class. \<^verbatim>\<open>re.search\<close> is modelled on this
  fragment with Python's priorities: the leftmost start, and at each repetition the
  longest run first, shorter runs on backtracking.
\<close>

datatype cls = Lit char | Word | Digit | Space | WordDotDash

text \<open>
  \<^verbatim>\<open>\s\<close> on a \<^verbatim>\<open>str\<close> pattern: the code points for which \<^verbatim>\<open>str.isspace\<close> holds, ASCII
  white space and separators, U+0085, U+00A0, U+1680, U+2000 to U+200A, U+2028, U+2029,
  U+202F, U+205F and U+3000.
\<close>

definition is_space :: "int \<Rightarrow> bool" where
  "is_space c =
     ((9 \<le> c \<and> c \<le> 13) \<or> (28 \<le> c \<and> c \<le> 32) \<or> c = 133 \<or> c = 160 \<or> c = 5760
      \<or> (8192 \<le> c \<and> c \<le> 8202) \<or> c = 8232 \<or> c = 8233 \<or> c = 8239 \<or> c = 8287
      \<or> c = 12288)"

text \<open>\<^verbatim>\<open>\w\<close>: alphanumeric in the Unicode database, or the underscore.\<close>

definition is_word :: "stdlib \<Rightarrow> int \<Rightarrow> bool" where
  "is_word lib c = (isalnum lib c \<or> c = of_char CHR ''_'')"

text \<open>
  Case-insensitive matching of a literal. The literals of the source's patterns are
  \<open>C\<close>, \<open>c\<close>, \<open>#\<close> and \<open>:\<close>; the only code points that match \<open>C\<close> or \<open>c\<close>
  without regard to case are these two letters, which lowering the ASCII capitals
  decides.
\<close>

definition lower :: "int \<Rightarrow> int" where
  "lower c = (if of_char CHR ''A'' \<le> c \<and> c \<le> of_char CHR ''Z'' then c + 32 else c)"

text \<open>Membership of a code point in a class; \<open>ic\<close> is the flag \<^verbatim>\<open>re.IGNORECASE\<close>.\<close>

fun in_cls :: "stdlib \<Rightarrow> bool \<Rightarrow> cls \<Rightarrow> int \<Rightarrow> bool" where
  "in_cls lib ic (Lit l) c = (if ic then lower (of_char l) = lower c else of_char l = c)"
| "in_cls lib ic Word c = is_word lib c"
| "in_cls lib ic Digit c = isdecimal lib c"
| "in_cls lib ic Space c = is_space c"
| "in_cls lib ic WordDotDash c =
     (is_word lib c \<or> c = of_char CHR ''.'' \<or> c = of_char CHR ''-'')"

text \<open>
  An item is a class, the least and the greatest number of repetitions (\<open>None\<close>: no
  bound) and whether it is the capturing group.
\<close>

type_synonym item = "cls \<times> nat \<times> nat option \<times> bool"

text \<open>The numbers of repetitions of an item to try at the head of \<open>s\<close>, longest first.\<close>

definition counts :: "stdlib \<Rightarrow> bool \<Rightarrow> cls \<Rightarrow> nat \<Rightarrow> nat option \<Rightarrow> ustr \<Rightarrow> nat list" where
  "counts lib ic c lo hi s =
     (let run = length (takeWhile (in_cls lib ic c) s);
          n = (case hi of None \<Rightarrow> run | Some h \<Rightarrow> min h run)
      in rev [lo ..< Suc n])"

text \<open>
  All matches of a pattern at the head of \<open>s\<close>, in the order in which backtracking finds
  them, each as the matched text and the text of the group.
\<close>

fun matches_at :: "stdlib \<Rightarrow> bool \<Rightarrow> item list \<Rightarrow> ustr \<Rightarrow> (ustr \<times> ustr) list" where
  "matches_at lib ic [] s = [([], [])]"
| "matches_at lib ic ((c, lo, hi, cap) # its) s =
     concat (map (\<lambda>k. map (\<lambda>(m, g). (take k s @ m, if cap then take k s else g))
                           (matches_at lib ic its (drop k s)))
                 (counts lib ic c lo hi s))"

text \<open>\<^verbatim>\<open>re.search\<close>: the first match at the leftmost position that has one.\<close>

fun re_search :: "stdlib \<Rightarrow> bool \<Rightarrow> item list \<Rightarrow> ustr \<Rightarrow> (ustr \<times> ustr) option" where
  "re_search lib ic pat [] =
     (case matches_at lib ic pat [] of [] \<Rightarrow> None | r # _ \<Rightarrow> Some r)"
| "re_search lib ic pat (x # xs) =
     (case matches_at lib ic pat (x # xs) of [] \<Rightarrow> re_search lib ic pat xs | r # _ \<Rightarrow> Some r)"

definition one :: "cls \<Rightarrow> item" where
  "one c = (c, 1, Some 1, False)"

definition plus :: "cls \<Rightarrow> item" where
  "plus c = (c, 1, None, False)"

definition star :: "cls \<Rightarrow> item" where
  "star c = (c, 0, None, False)"

definition opt :: "cls \<Rightarrow> item" where
  "opt c = (c, 0, Some 1, False)"

definition group4 :: "cls \<Rightarrow> item" where
  "group4 c = (c, 4, Some 4, True)"

text \<open>\<^verbatim>\<open>[\w\.-]+@[\w\.-]+\.\w+\<close>\<close>

definition email_pattern :: "item list" where
  "email_pattern =
     [plus WordDotDash, one (Lit CHR ''@''), plus WordDotDash, one (Lit CHR ''.''), plus Word]"

text \<open>
  \<^verbatim>\<open>CC#\s*(\d{4})\<close>, \<^verbatim>\<open>CC:\s*(\d{4})\<close>, \<^verbatim>\<open>CC\s+(\d{4})\<close>, \<^verbatim>\<open>#(\d{4})\<close>, \<^verbatim>\<open>cc\s?(\d{4})\<close>,
  in the order of the source.
\<close>

definition patterns :: "item list list" where
  "patterns =
     [[one (Lit CHR ''C''), one (Lit CHR ''C''), one (Lit CHR ''#''), star Space, group4 Digit],
      [one (Lit CHR ''C''), one (Lit CHR ''C''), one (Lit CHR '':''), star Space, group4 Digit],
      [one (Lit CHR ''C''), one (Lit CHR ''C''), plus Space, group4 Digit],
      [one (Lit CHR ''#''), group4 Digit],
      [one (Lit CHR ''c''), one (Lit CHR ''c''), opt Space, group4 Digit]]"

section \<open>The matching engine\<close>

subsection \<open>Extraction helpers\<close>

text \<open>
  \<^verbatim>\<open>_extract_email\<close>: nothing for a falsy or non-string argument, else the text of the
  first match of the e-mail pattern.
\<close>

fun extract_email :: "stdlib \<Rightarrow> pyval \<Rightarrow> ustr option" where
  "extract_email lib (PStr text) =
     (if text = [] then None
      else (case re_search lib False email_pattern text of
              None \<Rightarrow> None
            | Some (m, g) \<Rightarrow> Some m))"
| "extract_email lib v = None"

text \<open>The loop of \<^verbatim>\<open>_extract_last_four\<close> over the patterns: the group of the first that matches.\<close>

fun first_group :: "stdlib \<Rightarrow> item list list \<Rightarrow> ustr \<Rightarrow> ustr option" where
  "first_group lib [] text = None"
| "first_group lib (pattern # rest) text =
     (case re_search lib True pattern text of
        Some (m, g) \<Rightarrow> Some g
      | None \<Rightarrow> first_group lib rest text)"

fun extract_last_four :: "stdlib \<Rightarrow> pyval \<Rightarrow> ustr option" where
  "extract_last_four lib (PStr text) =
     (if text = [] then None else first_group lib patterns text)"
| "extract_last_four lib v = None"

subsection \<open>Records of the engine\<close>

text \<open>
  A purchase has the keys the engine reads with \<^verbatim>\<open>purchase[k]\<close> as plain fields and
  the keys it reads with \<^verbatim>\<open>purchase.get(k)\<close> as optional ones.
\<close>

record purchase =
  purchase_id :: int
  total :: real \<comment> \<open>a float\<close>
  createdDate :: ustr
  createdBy :: ustr
  externalRef :: "pyval option"
  internalNotes :: "pyval option"
  eventName :: "pyval option"

text \<open>A transaction of the payment portal; \<open>amount\<close> is in minor units.\<close>

record txn =
  txn_id :: int
  amount :: int
  date :: ustr
  description :: "pyval option"
  extended_description :: "pyval option"
  last_four :: "pyval option"
  sub_account :: "pyval option"

text \<open>The dictionary built by \<^verbatim>\<open>_extract_skybox_metadata\<close>.\<close>

record purchase_meta =
  meta_id :: int
  meta_amount :: real
  meta_created_date :: datetime
  meta_is_automated :: bool
  meta_external_ref :: pyval
  meta_internal_notes :: pyval
  meta_event_name :: pyval
  meta_email :: "ustr option"
  meta_last_four :: "ustr option"

datatype meta_val = MVal pyval | MNum real | MBool bool

record match_result =
  skybox_id :: int
  reveal_id :: int
  confidence_score :: real
  match_criteria :: "string list"
  metadata :: "(string \<times> meta_val) list"

subsection \<open>Metadata of a purchase\<close>

definition extract_skybox_metadata :: "stdlib \<Rightarrow> purchase \<Rightarrow> py_error + purchase_meta" where
  "extract_skybox_metadata lib p =
     (case fromisoformat lib (replace_Z (createdDate p)) of
        Inl e \<Rightarrow> Inl e
      | Inr d \<Rightarrow>
          (let notes = get_default (internalNotes p) (PStr [])
           in Inr \<lparr>meta_id = purchase_id p,
                    meta_amount = total p,
                    meta_created_date = replace_tzinfo_None d,
                    meta_is_automated =
                      (createdBy p \<in> set [u ''SeatScouts'', u ''Lotus Tickets Sale Tracking'']),
                    meta_external_ref = get (externalRef p),
                    meta_internal_notes = notes,
                    meta_event_name = get_default (eventName p) (PStr []),
                    meta_email = extract_email lib notes,
                    meta_last_four = extract_last_four lib notes\<rparr>))"

subsection \<open>The three strategies\<close>

text \<open>\<^verbatim>\<open>abs(reveal_txn['amount']) / 100\<close>\<close>

definition reveal_amount :: "txn \<Rightarrow> real" where
  "reveal_amount t = fl (\<bar>real_of_int (amount t)\<bar> / 100)"

definition match_by_order_number :: "purchase_meta \<Rightarrow> txn \<Rightarrow> match_result option" where
  "match_by_order_number m t =
     (let order_num = meta_external_ref m in
      if \<not> truthy order_num then None
      else
        (let desc = get_default (description t) (PStr []);
             ext_desc = py_or (get_default (extended_description t) (PStr [])) (PStr [])
         in if str_in (str order_num) (str desc) \<or> str_in (str order_num) (str ext_desc)
            then
              (if float_diff (reveal_amount t) (meta_amount m) < fl 0.01
               then Some \<lparr>skybox_id = meta_id m,
                          reveal_id = txn_id t,
                          confidence_score = 1.0,
                          match_criteria = [''order_number'', ''amount''],
                          metadata = [(''order_number'', MVal order_num),
                                      (''amount_diff'', MNum 0)]\<rparr>
               else None)
            else None))"

text \<open>
  \<^verbatim>\<open>_match_by_multiple_criteria\<close> up to its last test: the score, the criteria met and the
  amount difference, or \<open>None\<close> where the source returns on the amount. The date of the
  transaction is parsed only after the amount has passed.
\<close>

definition multiple_criteria_score ::
  "stdlib \<Rightarrow> purchase_meta \<Rightarrow> txn \<Rightarrow> py_error + (real \<times> string list \<times> real) option" where
  "multiple_criteria_score lib m t =
     (let amount_diff = float_diff (reveal_amount t) (meta_amount m) in
      case (if amount_diff < fl 0.01 then Some ([''amount_exact''], 0.40)
            else if amount_diff < 1.0 then Some ([''amount_close''], 0.20)
            else None) of
        None \<Rightarrow> Inr None
      | Some (criteria1, score1) \<Rightarrow>
          (case fromisoformat lib (date t) of
             Inl e \<Rightarrow> Inl e
           | Inr reveal_date \<Rightarrow>
               (case datetime_sub reveal_date (meta_created_date m) of
                  Inl e \<Rightarrow> Inl e
                | Inr td \<Rightarrow>
                    (let date_diff = \<bar>days td\<bar>;
                         (criteria2, score2) =
                           (if date_diff \<le> 0 then (criteria1 @ [''date_same_day''], score1 + 0.30)
                            else if date_diff \<le> 3
                            then (criteria1 @ [''date_within_3_days''], score1 + 0.20)
                            else (criteria1, score1));
                         (criteria3, score3) =
                           (case meta_last_four m of
                              None \<Rightarrow> (criteria2, score2)
                            | Some l \<Rightarrow>
                                if l = [] then (criteria2, score2)
                                else
                                  (let reveal_last4 =
                                         py_or (get (last_four t))
                                               (get_default (sub_account t) (PStr []))
                                   in if str_in l (str reveal_last4)
                                      then (criteria2 @ [''last_four''], score2 + 0.20)
                                      else (criteria2, score2)))
                     in Inr (Some (score3, criteria3, amount_diff))))))"

definition match_by_multiple_criteria ::
  "stdlib \<Rightarrow> purchase_meta \<Rightarrow> txn \<Rightarrow> py_error + match_result option" where
  "match_by_multiple_criteria lib m t =
     (case multiple_criteria_score lib m t of
        Inl e \<Rightarrow> Inl e
      | Inr None \<Rightarrow> Inr None
      | Inr (Some (score, criteria_met, amount_diff)) \<Rightarrow>
          if score \<ge> 0.75
          then Inr (Some \<lparr>skybox_id = meta_id m,
                          reveal_id = txn_id t,
                          confidence_score = score,
                          match_criteria = criteria_met,
                          metadata = [(''amount_diff'', MNum amount_diff),
                                      (''is_automated'', MBool (meta_is_automated m))]\<rparr>)
          else Inr None)"

definition match_by_email_metadata :: "purchase_meta \<Rightarrow> txn \<Rightarrow> match_result option" where
  "match_by_email_metadata m t = None"

subsection \<open>Selection for one purchase\<close>

text \<open>
  The body of the loop of \<^verbatim>\<open>match_transactions\<close> for one transaction: the first
  strategy that gives a result, in the order of the source.
\<close>

definition score_txn :: "stdlib \<Rightarrow> purchase_meta \<Rightarrow> txn \<Rightarrow> py_error + match_result option" where
  "score_txn lib m t =
     (case match_by_order_number m t of
        Some r \<Rightarrow> Inr (Some r)
      | None \<Rightarrow>
          (case match_by_multiple_criteria lib m t of
             Inl e \<Rightarrow> Inl e
           | Inr (Some r) \<Rightarrow> Inr (Some r)
           | Inr None \<Rightarrow> Inr (match_by_email_metadata m t)))"

text \<open>The loop, with the list \<open>candidates\<close> it appends to.\<close>

fun scan :: "stdlib \<Rightarrow> purchase_meta \<Rightarrow> txn list \<Rightarrow> match_result list
               \<Rightarrow> py_error + match_result list" where
  "scan lib m [] candidates = Inr candidates"
| "scan lib m (t # ts) candidates =
     (case score_txn lib m t of
        Inl e \<Rightarrow> Inl e
      | Inr (Some r) \<Rightarrow> scan lib m ts (candidates @ [r])
      | Inr None \<Rightarrow> scan lib m ts candidates)"

text \<open>
  \<^verbatim>\<open>max(xs, key=f)\<close> on a non-empty list: the running best is replaced only by a
  strictly greater key, so the first of several greatest elements is returned.
\<close>

fun max_from :: "('a \<Rightarrow> real) \<Rightarrow> 'a \<Rightarrow> 'a list \<Rightarrow> 'a" where
  "max_from key best [] = best"
| "max_from key best (x # xs) = max_from key (if key best < key x then x else best) xs"

definition match_transactions ::
  "stdlib \<Rightarrow> purchase \<Rightarrow> txn list \<Rightarrow> py_error + match_result option" where
  "match_transactions lib skybox_purchase reveal_transactions =
     (case extract_skybox_metadata lib skybox_purchase of
        Inl e \<Rightarrow> Inl e
      | Inr purchase_meta \<Rightarrow>
          (case scan lib purchase_meta reveal_transactions [] of
             Inl e \<Rightarrow> Inl e
           | Inr [] \<Rightarrow> Inr None
           | Inr (c # cs) \<Rightarrow>
               (let best_match = max_from confidence_score c cs
                in if confidence_score best_match \<ge> 0.75 then Inr (Some best_match)
                   else Inr None)))"

subsection \<open>Candidate filter and batch\<close>

text \<open>The test of \<^verbatim>\<open>_filter_candidate_transactions\<close> on one transaction.\<close>

definition is_candidate :: "stdlib \<Rightarrow> real \<Rightarrow> datetime \<Rightarrow> txn \<Rightarrow> py_error + bool" where
  "is_candidate lib amt created t =
     (let txn_amount = reveal_amount t in
      case fromisoformat lib (date t) of
        Inl e \<Rightarrow> Inl e
      | Inr txn_date \<Rightarrow>
          (let amount_match = (float_diff txn_amount amt < 5.0) in
           case datetime_sub txn_date created of
             Inl e \<Rightarrow> Inl e
           | Inr td \<Rightarrow>
               (let date_diff = \<bar>days td\<bar>;
                    date_match = (date_diff \<le> 7)
                in Inr (amount_match \<and> date_match))))"

fun filter_loop :: "stdlib \<Rightarrow> real \<Rightarrow> datetime \<Rightarrow> txn list \<Rightarrow> txn list
                      \<Rightarrow> py_error + txn list" where
  "filter_loop lib amt created [] candidates = Inr candidates"
| "filter_loop lib amt created (t # ts) candidates =
     (case is_candidate lib amt created t of
        Inl e \<Rightarrow> Inl e
      | Inr b \<Rightarrow> filter_loop lib amt created ts (if b then candidates @ [t] else candidates))"

definition filter_candidate_transactions ::
  "stdlib \<Rightarrow> purchase \<Rightarrow> txn list \<Rightarrow> py_error + txn list" where
  "filter_candidate_transactions lib p all_transactions =
     (case fromisoformat lib (replace_Z (createdDate p)) of
        Inl e \<Rightarrow> Inl e
      | Inr d \<Rightarrow> filter_loop lib (total p) (replace_tzinfo_None d) all_transactions [])"

text \<open>
  The loop shared by \<^verbatim>\<open>batch_match_transactions\<close> of the engine and \<^verbatim>\<open>_batch_match\<close> of
  the reconciliation service, which differ in their log lines only.
\<close>

fun batch_loop :: "stdlib \<Rightarrow> txn list \<Rightarrow> purchase list \<Rightarrow> match_result list \<Rightarrow> purchase list
                     \<Rightarrow> py_error + (match_result list \<times> purchase list)" where
  "batch_loop lib transactions [] matched unmatched = Inr (matched, unmatched)"
| "batch_loop lib transactions (p # ps) matched unmatched =
     (case filter_candidate_transactions lib p transactions of
        Inl e \<Rightarrow> Inl e
      | Inr candidates \<Rightarrow>
          (case match_transactions lib p candidates of
             Inl e \<Rightarrow> Inl e
           | Inr (Some match_result) \<Rightarrow>
               batch_loop lib transactions ps (matched @ [match_result]) unmatched
           | Inr None \<Rightarrow> batch_loop lib transactions ps matched (unmatched @ [p])))"

text \<open>\<^verbatim>\<open>sorted(purchases, key=lambda x: x['createdDate'])\<close>: a stable sort on the text of the date.\<close>

definition sorted_purchases :: "purchase list \<Rightarrow> purchase list" where
  "sorted_purchases ps = sort_key createdDate ps"

definition batch_match_transactions ::
  "stdlib \<Rightarrow> purchase list \<Rightarrow> txn list \<Rightarrow> py_error + (match_result list \<times> purchase list)" where
  "batch_match_transactions lib skybox_purchases reveal_transactions =
     batch_loop lib reveal_transactions (sorted_purchases skybox_purchases) [] []"

definition batch_match ::
  "stdlib \<Rightarrow> purchase list \<Rightarrow> txn list \<Rightarrow> py_error + (match_result list \<times> purchase list)" where
  "batch_match lib purchases transactions =
     batch_loop lib transactions (sorted_purchases purchases) [] []"

section \<open>The reconciliation service\<close>

text \<open>
  The result of a run. The entries of \<open>matches\<close> are dictionaries holding the five values
  of a match result under the keys \<^verbatim>\<open>skybox_id\<close>, \<^verbatim>\<open>reveal_id\<close>, \<^verbatim>\<open>confidence\<close>, \<^verbatim>\<open>criteria\<close>
  and \<^verbatim>\<open>metadata\<close>; they are kept as match results here.
\<close>

record reconciliation_result =
  timestamp :: ustr
  total_purchases :: nat
  total_transactions :: nat
  matches_found :: nat
  matches_updated :: nat
  unmatched_purchases :: nat
  errors :: "ustr list"
  matches :: "match_result list"

text \<open>\<^verbatim>\<open>a / b\<close> on integers raises on a zero divisor.\<close>

definition truediv :: "nat \<Rightarrow> nat \<Rightarrow> py_error + real" where
  "truediv a b = (if b = 0 then Inl (ZeroDivisionError (u ''division by zero''))
                  else Inr (real a / real b))"

text \<open>
  The \<^verbatim>\<open>except Exception\<close> branch of \<^verbatim>\<open>reconcile_transactions\<close>. The arguments
  \<open>purchases\<close> and \<open>transactions\<close> are \<open>None\<close> while the local variable of that name is
  not yet bound (\<^verbatim>\<open>'purchases' in locals()\<close>); \<open>ms\<close> is the value of \<^verbatim>\<open>matches\<close> when the
  exception is raised.
\<close>

definition except_branch ::
  "ustr \<Rightarrow> purchase list option \<Rightarrow> txn list option \<Rightarrow> match_result list \<Rightarrow> py_error
     \<Rightarrow> reconciliation_result" where
  "except_branch now purchases transactions ms e =
     \<lparr>timestamp = now,
      total_purchases = (case purchases of Some ps \<Rightarrow> length ps | None \<Rightarrow> 0),
      total_transactions = (case transactions of Some ts \<Rightarrow> length ts | None \<Rightarrow> 0),
      matches_found = length ms,
      matches_updated = 0,
      unmatched_purchases = 0,
      errors = [] @ [str_error e],
      matches = ms\<rparr>"

text \<open>
  \<^verbatim>\<open>reconcile_transactions\<close>. Its surroundings are parameters: \<open>now\<close> gives the text of
  the clock at its first and second reading; \<open>set_trace\<close> is the outcome of the
  statement \<^verbatim>\<open>import ipdb; ipdb.set_trace()\<close> that opens the \<^verbatim>\<open>try\<close> block (\<open>None\<close> when
  control comes back, an exception when the import fails or the debugger is quit);
  \<open>get_unreconciled_purchases\<close> and \<open>get_unmatched_transactions\<close> are the outcomes of
  the two fetches. Only subclasses of \<^verbatim>\<open>Exception\<close> are exceptions here. The update
  of the two systems is commented out in the source, so \<^verbatim>\<open>updated_count\<close> stays 0.
  The last log line before \<^verbatim>\<open>return result\<close> formats
  \<^verbatim>\<open>result.matches_found/result.total_purchases*100\<close>.
\<close>

definition reconcile_transactions ::
  "stdlib \<Rightarrow> (nat \<Rightarrow> ustr) \<Rightarrow> py_error option \<Rightarrow> (py_error + purchase list)
     \<Rightarrow> (py_error + txn list) \<Rightarrow> reconciliation_result" where
  "reconcile_transactions lib now set_trace get_unreconciled_purchases
       get_unmatched_transactions =
     (case set_trace of
        Some e \<Rightarrow> except_branch (now 0) None None [] e
      | None \<Rightarrow>
     (case get_unreconciled_purchases of
        Inl e \<Rightarrow> except_branch (now 0) None None [] e
      | Inr purchases \<Rightarrow>
     (case get_unmatched_transactions of
        Inl e \<Rightarrow> except_branch (now 0) (Some purchases) None [] e
      | Inr transactions \<Rightarrow>
     (case batch_match lib purchases transactions of
        Inl e \<Rightarrow> except_branch (now 0) (Some purchases) (Some transactions) [] e
      | Inr (matched, unmatched) \<Rightarrow>
          (let updated_count = 0;
               ms = matched;
               result = \<lparr>timestamp = now 0,
                         total_purchases = length purchases,
                         total_transactions = length transactions,
                         matches_found = length matched,
                         matches_updated = updated_count,
                         unmatched_purchases = length unmatched,
                         errors = [],
                         matches = ms\<rparr>
           in case truediv (matches_found result) (total_purchases result) of
                Inl e \<Rightarrow> except_branch (now 1) (Some purchases) (Some transactions) ms e
              | Inr rate \<Rightarrow> result)))))"

text \<open>The success rate of \<^verbatim>\<open>ReportingService._generate_summary\<close>, in percent.\<close>

definition summary_success_rate :: "reconciliation_result \<Rightarrow> real" where
  "summary_success_rate result =
     (if total_purchases result > 0
      then real (matches_found result) / real (total_purchases result) * 100
      else 0)"

section \<open>A library for the examples\<close>

text \<open>
  For the concrete runs below: a parser of the three common shapes of an ISO date,
  \<^verbatim>\<open>YYYY-MM-DD\<close>, \<^verbatim>\<open>YYYY-MM-DDTHH:MM:SS\<close> and \<^verbatim>\<open>YYYY-MM-DDTHH:MM:SS+HH:MM\<close>, on which
  \<^verbatim>\<open>datetime.fromisoformat\<close> of every Python version since 3.7 gives the datetime
  computed here, and the two Unicode tables on ASCII, where they are the ASCII digits
  and the ASCII letters and digits. The general theorems do not depend on this library.
\<close>

definition ascii_digit :: "int \<Rightarrow> bool" where
  "ascii_digit c = (of_char CHR ''0'' \<le> c \<and> c \<le> of_char CHR ''9'')"

definition ascii_alnum :: "int \<Rightarrow> bool" where
  "ascii_alnum c =
     ((of_char CHR ''a'' \<le> c \<and> c \<le> of_char CHR ''z'')
      \<or> (of_char CHR ''A'' \<le> c \<and> c \<le> of_char CHR ''Z'') \<or> ascii_digit c)"

fun number :: "ustr \<Rightarrow> int \<Rightarrow> int option" where
  "number [] acc = Some acc"
| "number (c # cs) acc =
     (if ascii_digit c then number cs (10 * acc + (c - 48)) else None)"

definition is_leap :: "int \<Rightarrow> bool" where
  "is_leap y = (y mod 4 = 0 \<and> (y mod 100 \<noteq> 0 \<or> y mod 400 = 0))"

definition days_in_month :: "int \<Rightarrow> int \<Rightarrow> int" where
  "days_in_month y m =
     (if m = 2 then (if is_leap y then 29 else 28)
      else if m = 4 \<or> m = 6 \<or> m = 9 \<or> m = 11 then 30 else 31)"

text \<open>The number of the day in the proleptic Gregorian calendar, counted from 1970-01-01.\<close>

definition days_from_civil :: "int \<Rightarrow> int \<Rightarrow> int \<Rightarrow> int" where
  "days_from_civil y m d =
     (let y' = (if m \<le> 2 then y - 1 else y);
          era = y' div 400;
          yoe = y' - era * 400;
          mp = (if m > 2 then m - 3 else m + 9);
          doy = (153 * mp + 2) div 5 + d - 1;
          doe = yoe * 365 + yoe div 4 - yoe div 100 + doy
      in era * 146097 + doe - 719468)"

definition parse_date :: "ustr \<Rightarrow> int option" where
  "parse_date s =
     (if length s = 10 \<and> s ! 4 = of_char CHR ''-'' \<and> s ! 7 = of_char CHR ''-''
      then (case (number (take 4 s) 0, number (take 2 (drop 5 s)) 0, number (drop 8 s) 0) of
              (Some y, Some m, Some d) \<Rightarrow>
                if 1 \<le> y \<and> 1 \<le> m \<and> m \<le> 12 \<and> 1 \<le> d \<and> d \<le> days_in_month y m
                then Some (days_from_civil y m d * usec_per_day) else None
            | _ \<Rightarrow> None)
      else None)"

definition parse_time :: "ustr \<Rightarrow> int option" where
  "parse_time s =
     (if length s = 8 \<and> s ! 2 = of_char CHR '':'' \<and> s ! 5 = of_char CHR '':''
      then (case (number (take 2 s) 0, number (take 2 (drop 3 s)) 0, number (drop 6 s) 0) of
              (Some h, Some mi, Some sec) \<Rightarrow>
                if h < 24 \<and> mi < 60 \<and> sec < 60
                then Some ((h * 3600 + mi * 60 + sec) * 1000000) else None
            | _ \<Rightarrow> None)
      else None)"

definition parse_offset :: "ustr \<Rightarrow> int option" where
  "parse_offset s =
     (if length s = 6 \<and> (s ! 0 = of_char CHR ''+'' \<or> s ! 0 = of_char CHR ''-'')
         \<and> s ! 3 = of_char CHR '':''
      then (case (number (take 2 (drop 1 s)) 0, number (drop 4 s) 0) of
              (Some h, Some mi) \<Rightarrow>
                if h < 24 \<and> mi < 60
                then Some ((if s ! 0 = of_char CHR ''-'' then - 1 else 1)
                           * (h * 3600 + mi * 60) * 1000000)
                else None
            | _ \<Rightarrow> None)
      else None)"

definition invalid_isoformat :: "ustr \<Rightarrow> py_error" where
  "invalid_isoformat s = ValueError (u ''Invalid isoformat string: '' @ s)"

definition fromisoformat_basic :: "ustr \<Rightarrow> py_error + datetime" where
  "fromisoformat_basic s =
     (if length s = 10 then
        (case parse_date s of
           Some d \<Rightarrow> Inr \<lparr>wall = d, utcoffset = None\<rparr>
         | None \<Rightarrow> Inl (invalid_isoformat s))
      else if length s = 19 then
        (case (parse_date (take 10 s), parse_time (drop 11 s)) of
           (Some d, Some t) \<Rightarrow> Inr \<lparr>wall = d + t, utcoffset = None\<rparr>
         | _ \<Rightarrow> Inl (invalid_isoformat s))
      else if length s = 25 then
        (case (parse_date (take 10 s), parse_time (take 8 (drop 11 s)), parse_offset (drop 19 s)) of
           (Some d, Some t, Some off) \<Rightarrow> Inr \<lparr>wall = d + t, utcoffset = Some off\<rparr>
         | _ \<Rightarrow> Inl (invalid_isoformat s))
      else Inl (invalid_isoformat s))"

definition basic :: stdlib where
  "basic = \<lparr>fromisoformat = fromisoformat_basic, isdecimal = ascii_digit,
             isalnum = ascii_alnum\<rparr>"

section \<open>The scoring rules as the specification words them\<close>

text \<open>
  The specification describes strategy 2 as a weighted sum of independent signals. The
  definitions of this section follow its words; the lemmas below relate them to
  \<open>multiple_criteria_score\<close>, which follows the source.
\<close>

definition weight :: "string \<Rightarrow> real" where
  "weight c =
     (if c = ''amount_exact'' then 0.40
      else if c = ''amount_close'' then 0.20
      else if c = ''date_same_day'' then 0.30
      else if c = ''date_within_3_days'' then 0.20
      else if c = ''last_four'' then 0.20
      else 0)"

definition signals :: "real \<Rightarrow> int \<Rightarrow> bool \<Rightarrow> string list" where
  "signals amount_diff dd hit =
     [if amount_diff < fl 0.01 then ''amount_exact'' else ''amount_close'']
     @ (if dd \<le> 0 then [''date_same_day'']
        else if dd \<le> 3 then [''date_within_3_days''] else [])
     @ (if hit then [''last_four''] else [])"

text \<open>The purchase yields four digits and they occur in the card field of the transaction.\<close>

definition last_four_hit :: "purchase_meta \<Rightarrow> txn \<Rightarrow> bool" where
  "last_four_hit m t =
     (case meta_last_four m of
        None \<Rightarrow> False
      | Some l \<Rightarrow> l \<noteq> [] \<and>
          str_in l (str (py_or (get (last_four t)) (get_default (sub_account t) (PStr [])))))"

text \<open>The day difference both the filter and strategy 2 compute for a transaction.\<close>

definition date_diff :: "stdlib \<Rightarrow> datetime \<Rightarrow> txn \<Rightarrow> py_error + int" where
  "date_diff lib created t =
     (case fromisoformat lib (date t) of
        Inl e \<Rightarrow> Inl e
      | Inr d \<Rightarrow> (case datetime_sub d created of Inl e \<Rightarrow> Inl e | Inr td \<Rightarrow> Inr \<bar>days td\<bar>))"

text \<open>The calendar day of a datetime, as a day number.\<close>

definition calendar_day :: "datetime \<Rightarrow> int" where
  "calendar_day d = wall d div usec_per_day"

text \<open>Well-formed dates: the text parses, and for a transaction to a naive datetime.\<close>

definition parses :: "stdlib \<Rightarrow> ustr \<Rightarrow> bool" where
  "parses lib s = (case fromisoformat lib s of Inl e \<Rightarrow> False | Inr d \<Rightarrow> True)"

definition parses_naive :: "stdlib \<Rightarrow> ustr \<Rightarrow> bool" where
  "parses_naive lib s = (case fromisoformat lib s of Inl e \<Rightarrow> False | Inr d \<Rightarrow> utcoffset d = None)"

text \<open>What the batch does with one purchase: filter, then select.\<close>

definition match_one :: "stdlib \<Rightarrow> txn list \<Rightarrow> purchase \<Rightarrow> py_error + match_result option" where
  "match_one lib transactions p =
     (case filter_candidate_transactions lib p transactions of
        Inl e \<Rightarrow> Inl e
      | Inr candidates \<Rightarrow> match_transactions lib p candidates)"

section \<open>Examples\<close>



definition purchase2 :: purchase where
  "purchase2 = \<lparr>purchase_id = 2, total = 75.00, createdDate = u ''2026-02-01'',
                 createdBy = u ''SeatScouts'', externalRef = None,
                 internalNotes = None, eventName = None\<rparr>"

definition txn10 :: txn where
  "txn10 = \<lparr>txn_id = 10, amount = 7500, date = u ''2026-02-01'',
             description = None, extended_description = None,
             last_four = None, sub_account = None\<rparr>"

text \<open>The second example with a card note on the purchase and the card on the transaction.\<close>

definition purchase3 :: purchase where
  "purchase3 = purchase2\<lparr>purchase_id := 3, internalNotes := Some (PStr (u ''paid CC# 1234''))\<rparr>"

definition txn11 :: txn where
  "txn11 = txn10\<lparr>txn_id := 11, last_four := Some (PStr (u ''1234''))\<rparr>"

text \<open>A purchase created in the afternoon of the same day, as the ticketing system stamps it.\<close>

definition purchase4 :: purchase where
  "purchase4 = purchase2\<lparr>purchase_id := 4, createdDate := u ''2026-02-01T15:00:00Z''\<rparr>"

text \<open>A transaction two currency units above the purchases of 75.00.\<close>

definition txn12 :: txn where
  "txn12 = txn10\<lparr>txn_id := 12, amount := 7700\<rparr>"

definition results :: "stdlib \<Rightarrow> purchase_meta \<Rightarrow> txn list \<Rightarrow> match_result list" where
  "results lib m ts =
     concat (map (\<lambda>t. case score_txn lib m t of Inr (Some r) \<Rightarrow> [r] | _ \<Rightarrow> []) ts)"

definition best_of :: "match_result list \<Rightarrow> match_result option" where
  "best_of cs = (case cs of [] \<Rightarrow> None | c # cs' \<Rightarrow> Some (max_from confidence_score c cs'))"


definition meta2 :: purchase_meta where
  "meta2 = \<lparr>meta_id = 2, meta_amount = 75.00,
             meta_created_date = \<lparr>wall = 20485 * usec_per_day, utcoffset = None\<rparr>,
             meta_is_automated = True, meta_external_ref = PNone,
             meta_internal_notes = PStr [], meta_event_name = PStr [],
             meta_email = None, meta_last_four = None\<rparr>"

text \<open>The metadata extracted from \<open>purchase3\<close> and \<open>purchase4\<close> with the example parser.\<close>

definition meta3 :: purchase_meta where
  "meta3 = meta2\<lparr>meta_id := 3, meta_internal_notes := PStr (u ''paid CC# 1234''),
                   meta_last_four := Some (u ''1234'')\<rparr>"

definition meta4 :: purchase_meta where
  "meta4 = meta2\<lparr>meta_id := 4,
                   meta_created_date :=
                     \<lparr>wall = 20485 * usec_per_day + 54000000000, utcoffset = None\<rparr>\<rparr>"





text \<open>A transaction dated the day after the purchases.\<close>

definition txn15 :: txn where
  "txn15 = txn10\<lparr>txn_id := 15, date := u ''2026-02-02''\<rparr>"

text \<open>The match of \<open>purchase3\<close> with \<open>txn11\<close>.\<close>

definition result3 :: match_result where
  "result3 = \<lparr>skybox_id = 3, reveal_id = 11, confidence_score = 0.90,
                match_criteria = [''amount_exact'', ''date_same_day'', ''last_four''],
                metadata = [(''amount_diff'', MNum 0), (''is_automated'', MBool True)]\<rparr>"

text \<open>A second transaction with the card of \<open>txn11\<close>, later in the list.\<close>

definition txn16 :: txn where
  "txn16 = txn11\<lparr>txn_id := 16\<rparr>"

text \<open>A clock for the concrete runs.\<close>

definition clock :: "nat \<Rightarrow> ustr" where
  "clock n = (if n = 0 then u ''2026-02-03T09:00:00'' else u ''2026-02-03T09:00:01'')"

text \<open>The first capturing item of a pattern, if it has one.\<close>

fun capture :: "item list \<Rightarrow> (cls \<times> nat \<times> nat option) option" where
  "capture [] = None"
| "capture ((c, lo, hi, cap) # its) = (if cap then Some (c, lo, hi) else capture its)"

text \<open>A note with an address and a card.\<close>

definition memo :: ustr where
  "memo = u ''paid by bob.smith@example.com on CC# 1234''"

section \<open>Floats\<close>

lemma fl_hundredth: "fl 0.01 = 5764607523034235 / 576460752303423488"
  by code_simp

lemma fl_hundredth_bounds: "0 < fl 0.01" "fl 0.01 < 1" "fl 0.01 < 5"
  using fl_hundredth by simp_all

lemma u_Nil_iff [simp]: "u s = [] \<longleftrightarrow> s = []"
  by (simp add: u_def)

lemma fl_zero: "fl 0 = 0"
  by (simp add: round_double_def)

lemma float_diff_same: "float_diff x x = 0"
  by (simp add: float_diff_def fl_zero)

lemma fl_hundredth_n: "fl (1 / 100) = 5764607523034235 / 576460752303423488"
  using fl_hundredth by simp

lemma fl_75: "fl 75 = 75"
  by code_simp

lemma fl_77: "fl 77 = 77"
  by code_simp

lemma fl_150: "fl 150 = 150"
  by code_simp

lemma fl_2: "fl 2 = 2"
  by code_simp

lemmas float_examples =
  reveal_amount_def float_diff_def fl_zero fl_75 fl_77 fl_150 fl_2 fl_hundredth_n

section \<open>Strategy 2 against the weighted sum\<close>

lemma score_rejects:
  "1 \<le> (float_diff (reveal_amount t) (meta_amount m)) \<Longrightarrow> multiple_criteria_score lib m t = Inr None"
  using fl_hundredth_bounds(2) by (simp add: multiple_criteria_score_def)

lemma score_error:
  "(float_diff (reveal_amount t) (meta_amount m)) < 1 \<Longrightarrow> date_diff lib (meta_created_date m) t = Inl e
   \<Longrightarrow> multiple_criteria_score lib m t = Inl e"
  by (auto simp: multiple_criteria_score_def date_diff_def Let_def split: sum.splits)

lemma score_signals:
  assumes "(float_diff (reveal_amount t) (meta_amount m)) < 1"
      and "date_diff lib (meta_created_date m) t = Inr dd"
  shows "multiple_criteria_score lib m t =
           Inr (Some (sum_list (map weight
                        (signals (float_diff (reveal_amount t) (meta_amount m)) dd (last_four_hit m t))),
                      signals (float_diff (reveal_amount t) (meta_amount m)) dd (last_four_hit m t),
                      (float_diff (reveal_amount t) (meta_amount m))))"
  using assms
  by (auto simp: multiple_criteria_score_def date_diff_def Let_def signals_def weight_def
        last_four_hit_def split: sum.splits option.splits)

lemma weight_signals_le: "sum_list (map weight (signals a d h)) \<le> 0.9"
  by (simp add: signals_def weight_def)

lemma accept_iff: "0.75 \<le> sum_list (map weight (signals a d h)) \<longleftrightarrow> a < fl 0.01 \<and> d \<le> 3 \<and> h"
  by (simp add: signals_def weight_def)

lemma score_cases:
  "(\<exists>e. multiple_criteria_score lib m t = Inl e \<and> (float_diff (reveal_amount t) (meta_amount m)) < 1
         \<and> date_diff lib (meta_created_date m) t = Inl e)
   \<or> (multiple_criteria_score lib m t = Inr None \<and> 1 \<le> (float_diff (reveal_amount t) (meta_amount m)))
   \<or> (\<exists>dd. (float_diff (reveal_amount t) (meta_amount m)) < 1 \<and> date_diff lib (meta_created_date m) t = Inr dd
         \<and> multiple_criteria_score lib m t =
           Inr (Some (sum_list (map weight
                        (signals (float_diff (reveal_amount t) (meta_amount m)) dd (last_four_hit m t))),
                      signals (float_diff (reveal_amount t) (meta_amount m)) dd (last_four_hit m t),
                      (float_diff (reveal_amount t) (meta_amount m)))))"
proof (cases "(float_diff (reveal_amount t) (meta_amount m)) < 1")
  case False
  then show ?thesis using score_rejects [of t m lib] by simp
next
  case True
  show ?thesis
  proof (cases "date_diff lib (meta_created_date m) t")
    case (Inl e)
    then show ?thesis using True score_error by blast
  next
    case (Inr dd)
    then show ?thesis using True score_signals by blast
  qed
qed

lemma multi_accepts:
  assumes "match_by_multiple_criteria lib m t = Inr (Some r)"
  shows "\<exists>dd. date_diff lib (meta_created_date m) t = Inr dd \<and> dd \<le> 3
           \<and> (float_diff (reveal_amount t) (meta_amount m)) < fl 0.01 \<and> last_four_hit m t
           \<and> confidence_score r = sum_list (map weight (signals (float_diff (reveal_amount t) (meta_amount m)) dd True))
           \<and> match_criteria r = signals (float_diff (reveal_amount t) (meta_amount m)) dd True
           \<and> skybox_id r = meta_id m \<and> reveal_id r = txn_id t"
proof -
  from assms obtain s cs d where
    sc: "multiple_criteria_score lib m t = Inr (Some (s, cs, d))" and
    acc: "0.75 \<le> s" and
    r: "skybox_id r = meta_id m" "reveal_id r = txn_id t" "confidence_score r = s"
       "match_criteria r = cs"
    unfolding match_by_multiple_criteria_def
    by (auto split: sum.splits option.splits if_splits)
  let ?a = "(float_diff (reveal_amount t) (meta_amount m))"
  from sc score_cases [of lib m t] obtain dd where
    dd: "date_diff lib (meta_created_date m) t = Inr dd" and
    s: "s = sum_list (map weight (signals ?a dd (last_four_hit m t)))" and
    cs: "cs = signals ?a dd (last_four_hit m t)"
    by auto
  from acc s have "?a < fl 0.01 \<and> dd \<le> 3 \<and> last_four_hit m t"
    using accept_iff [of ?a dd "last_four_hit m t"] by blast
  with dd s cs r show ?thesis by auto
qed

lemma multi_confidence:
  assumes "match_by_multiple_criteria lib m t = Inr (Some r)"
  shows "0.75 \<le> confidence_score r \<and> confidence_score r \<le> 0.9"
proof -
  from multi_accepts [OF assms] obtain dd where
    "dd \<le> 3" "(float_diff (reveal_amount t) (meta_amount m)) < fl 0.01"
    "confidence_score r = sum_list (map weight (signals (float_diff (reveal_amount t) (meta_amount m)) dd True))"
    by blast
  then show ?thesis
    using accept_iff [of "(float_diff (reveal_amount t) (meta_amount m))" dd True]
      weight_signals_le [of "(float_diff (reveal_amount t) (meta_amount m))" dd True]
    by metis
qed

lemma order_number_result:
  assumes "match_by_order_number m t = Some r"
  shows "confidence_score r = 1 \<and> match_criteria r = [''order_number'', ''amount'']
         \<and> skybox_id r = meta_id m \<and> reveal_id r = txn_id t
         \<and> truthy (meta_external_ref m) \<and> (float_diff (reveal_amount t) (meta_amount m)) < fl 0.01"
  using assms by (auto simp: match_by_order_number_def Let_def split: if_splits)

lemma score_txn_result:
  assumes "score_txn lib m t = Inr (Some r)"
  shows "(match_by_order_number m t = Some r)
         \<or> (match_by_order_number m t = None \<and> match_by_multiple_criteria lib m t = Inr (Some r))"
  using assms
  by (auto simp: score_txn_def match_by_email_metadata_def split: option.splits sum.splits)

lemma score_txn_confidence:
  assumes "score_txn lib m t = Inr (Some r)"
  shows "0.75 \<le> confidence_score r \<and> confidence_score r \<le> 1 \<and> skybox_id r = meta_id m"
  using score_txn_result [OF assms] order_number_result [of m t r] multi_confidence [of lib m t r]
    multi_accepts [of lib m t r]
  by auto

lemma results_Nil [simp]: "results lib m [] = []"
  by (simp add: results_def)

lemma results_Cons:
  "results lib m (t # ts) =
     (case score_txn lib m t of Inr (Some r) \<Rightarrow> [r] | _ \<Rightarrow> []) @ results lib m ts"
  by (simp add: results_def)

lemma results_append [simp]:
  "results lib m (xs @ ys) = results lib m xs @ results lib m ys"
  by (simp add: results_def)

lemma scan_Inr:
  "scan lib m ts acc = Inr cs \<Longrightarrow>
     (\<forall>t\<in>set ts. \<exists>x. score_txn lib m t = Inr x) \<and> cs = acc @ results lib m ts"
proof (induction ts arbitrary: acc)
  case Nil
  then show ?case by simp
next
  case (Cons t ts)
  show ?case
  proof (cases "score_txn lib m t")
    case (Inl e)
    with Cons.prems show ?thesis by simp
  next
    case (Inr x)
    show ?thesis
    proof (cases x)
      case None
      with Inr Cons.prems have "scan lib m ts acc = Inr cs" by simp
      from Cons.IH [OF this] Inr None show ?thesis by (simp add: results_Cons)
    next
      case (Some r)
      with Inr Cons.prems have "scan lib m ts (acc @ [r]) = Inr cs" by simp
      from Cons.IH [OF this] Inr Some show ?thesis by (simp add: results_Cons)
    qed
  qed
qed

lemma scan_returns:
  "\<forall>t\<in>set ts. \<exists>x. score_txn lib m t = Inr x \<Longrightarrow>
     scan lib m ts acc = Inr (acc @ results lib m ts)"
proof (induction ts arbitrary: acc)
  case Nil
  then show ?case by simp
next
  case (Cons t ts)
  then show ?case
    by (cases "score_txn lib m t") (auto simp: results_Cons split: option.splits)
qed

lemma max_from_split_gen:
  assumes "\<forall>x\<in>set pre. key x < key b" and "\<forall>x\<in>set mid. key x \<le> key b"
  shows "\<exists>pre' post'. pre @ b # mid @ xs = pre' @ max_from key b xs # post'
           \<and> (\<forall>x\<in>set pre'. key x < key (max_from key b xs))
           \<and> (\<forall>x\<in>set post'. key x \<le> key (max_from key b xs))"
  using assms
proof (induction xs arbitrary: b pre mid)
  case Nil
  then show ?case by auto
next
  case (Cons x xs)
  show ?case
  proof (cases "key b < key x")
    case True
    have "\<forall>y\<in>set (pre @ b # mid). key y < key x"
      using Cons.prems True by fastforce
    from Cons.IH [of "pre @ b # mid" x "[]", OF this] True
    show ?thesis by simp
  next
    case False
    have "\<forall>y\<in>set (mid @ [x]). key y \<le> key b"
      using Cons.prems False by auto
    from Cons.IH [of pre b "mid @ [x]", OF Cons.prems(1) this] False
    show ?thesis by simp
  qed
qed

lemma max_from_split:
  "\<exists>pre post. b # xs = pre @ max_from key b xs # post
     \<and> (\<forall>x\<in>set pre. key x < key (max_from key b xs))
     \<and> (\<forall>x\<in>set post. key x \<le> key (max_from key b xs))"
  using max_from_split_gen [of "[]" key b "[]" xs] by simp

lemma results_split:
  "results lib m ts = cpre @ r # cpost \<Longrightarrow>
     \<exists>pre t post. ts = pre @ t # post \<and> score_txn lib m t = Inr (Some r)
        \<and> results lib m pre = cpre \<and> results lib m post = cpost"
proof (induction ts arbitrary: cpre)
  case Nil
  then show ?case by simp
next
  case (Cons t ts)
  show ?case
  proof (cases "\<exists>r0. score_txn lib m t = Inr (Some r0)")
    case True
    then obtain r0 where r0: "score_txn lib m t = Inr (Some r0)" by blast
    with Cons.prems have eq: "r0 # results lib m ts = cpre @ r # cpost"
      by (simp add: results_Cons)
    show ?thesis
    proof (cases cpre)
      case Nil
      with eq r0 show ?thesis by (intro exI [of _ "[]"] exI [of _ t] exI [of _ ts]) simp
    next
      case (Cons c cpre')
      with eq have "results lib m ts = cpre' @ r # cpost" and c: "c = r0" by simp_all
      from Cons.IH [OF this(1)] obtain pre t' post where
        "ts = pre @ t' # post" "score_txn lib m t' = Inr (Some r)"
        "results lib m pre = cpre'" "results lib m post = cpost" by blast
      with r0 c Cons show ?thesis
        by (intro exI [of _ "t # pre"] exI [of _ t'] exI [of _ post]) (simp add: results_Cons)
    qed
  next
    case False
    then have none: "(case score_txn lib m t of Inr (Some r) \<Rightarrow> [r] | _ \<Rightarrow> []) = []"
      by (auto split: sum.splits option.splits)
    with Cons.prems have "results lib m ts = cpre @ r # cpost"
      by (simp add: results_Cons)
    from Cons.IH [OF this] obtain pre t' post where
      "ts = pre @ t' # post" "score_txn lib m t' = Inr (Some r)"
      "results lib m pre = cpre" "results lib m post = cpost" by blast
    with none show ?thesis
      by (intro exI [of _ "t # pre"] exI [of _ t'] exI [of _ post]) (simp add: results_Cons)
  qed
qed

lemma results_member:
  "r \<in> set (results lib m ts) \<Longrightarrow> \<exists>t\<in>set ts. score_txn lib m t = Inr (Some r)"
  by (auto simp: results_def split: sum.splits option.splits)

lemma member_results:
  "t \<in> set ts \<Longrightarrow> score_txn lib m t = Inr (Some r) \<Longrightarrow> r \<in> set (results lib m ts)"
  by (force simp: results_def)

lemma best_of_Some:
  assumes "best_of cs = Some r"
  shows "\<exists>pre post. cs = pre @ r # post
           \<and> (\<forall>x\<in>set pre. confidence_score x < confidence_score r)
           \<and> (\<forall>x\<in>set post. confidence_score x \<le> confidence_score r)"
proof (cases cs)
  case Nil
  with assms show ?thesis by (simp add: best_of_def)
next
  case (Cons c cs')
  with assms have "r = max_from confidence_score c cs'" by (simp add: best_of_def)
  with max_from_split [of c cs' confidence_score] Cons show ?thesis by simp
qed

lemma results_confidence:
  "r \<in> set (results lib m ts) \<Longrightarrow> 0.75 \<le> confidence_score r \<and> confidence_score r \<le> 1"
  using results_member score_txn_confidence by blast

lemma best_of_results_floor:
  assumes "best_of (results lib m ts) = Some r"
  shows "0.75 \<le> confidence_score r"
proof -
  from best_of_Some [OF assms] have "r \<in> set (results lib m ts)" by auto
  then show ?thesis using results_confidence by blast
qed

lemma match_transactions_Inr:
  assumes "extract_skybox_metadata lib p = Inr m"
      and "match_transactions lib p ts = Inr res"
  shows "(\<forall>t\<in>set ts. \<exists>x. score_txn lib m t = Inr x) \<and> res = best_of (results lib m ts)"
proof -
  from assms obtain cs where sc: "scan lib m ts [] = Inr cs"
    by (auto simp: match_transactions_def split: sum.splits)
  from scan_Inr [OF sc] have all: "\<forall>t\<in>set ts. \<exists>x. score_txn lib m t = Inr x"
    and cs: "cs = results lib m ts" by simp_all
  show ?thesis
  proof (cases cs)
    case Nil
    with assms sc cs all show ?thesis by (simp add: match_transactions_def best_of_def)
  next
    case (Cons c cs')
    then have b: "best_of (results lib m ts) = Some (max_from confidence_score c cs')"
      using cs by (simp add: best_of_def)
    from best_of_results_floor [OF b] have "0.75 \<le> confidence_score (max_from confidence_score c cs')" .
    with assms sc Cons b all show ?thesis
      by (simp add: match_transactions_def Let_def)
  qed
qed

lemma match_transactions_returns:
  assumes "extract_skybox_metadata lib p = Inr m"
      and "\<forall>t\<in>set ts. \<exists>x. score_txn lib m t = Inr x"
  shows "match_transactions lib p ts = Inr (best_of (results lib m ts))"
proof -
  from scan_returns [OF assms(2), of "[]"] have sc: "scan lib m ts [] = Inr (results lib m ts)"
    by simp
  show ?thesis
  proof (cases "results lib m ts")
    case Nil
    with assms sc show ?thesis by (simp add: match_transactions_def best_of_def)
  next
    case (Cons c cs')
    then have b: "best_of (results lib m ts) = Some (max_from confidence_score c cs')"
      by (simp add: best_of_def)
    from best_of_results_floor [OF b] have "0.75 \<le> confidence_score (max_from confidence_score c cs')" .
    with assms sc Cons b show ?thesis
      by (simp add: match_transactions_def Let_def)
  qed
qed

lemma extract_fields:
  assumes "extract_skybox_metadata lib p = Inr m"
  shows "meta_id m = purchase_id p" "meta_amount m = total p"
    "utcoffset (meta_created_date m) = None"
    "meta_external_ref m = get (externalRef p)"
    "meta_last_four m = extract_last_four lib (get_default (internalNotes p) (PStr []))"
    "meta_email m = extract_email lib (get_default (internalNotes p) (PStr []))"
    "\<exists>d. fromisoformat lib (replace_Z (createdDate p)) = Inr d \<and> meta_created_date m = replace_tzinfo_None d"
  using assms
  by (auto simp: extract_skybox_metadata_def Let_def replace_tzinfo_None_def split: sum.splits)

lemma date_diff_returns:
  assumes "parses_naive lib (date t)" and "utcoffset created = None"
  shows "\<exists>dd. date_diff lib created t = Inr dd"
  using assms
  by (auto simp: parses_naive_def date_diff_def datetime_sub_def split: sum.splits)

lemma score_txn_returns:
  assumes "parses_naive lib (date t)" and "utcoffset (meta_created_date m) = None"
  shows "\<exists>x. score_txn lib m t = Inr x"
proof -
  from date_diff_returns [OF assms] obtain dd where
    "date_diff lib (meta_created_date m) t = Inr dd" by blast
  with score_cases [of lib m t] have "\<exists>y. multiple_criteria_score lib m t = Inr y"
    by auto
  then have "\<exists>y. match_by_multiple_criteria lib m t = Inr y"
    by (auto simp: match_by_multiple_criteria_def split: option.splits)
  then show ?thesis
    by (auto simp: score_txn_def split: option.splits)
qed



section \<open>Evaluation of the examples\<close>

lemma parse_date_only:
  "fromisoformat_basic (u ''2026-02-01'') = Inr \<lparr>wall = 20485 * usec_per_day, utcoffset = None\<rparr>"
  by code_simp

lemma parse_2026_02_01:
  "fromisoformat basic (u ''2026-02-01'') = Inr \<lparr>wall = 20485 * usec_per_day, utcoffset = None\<rparr>"
  by (simp add: basic_def parse_date_only)

lemma replace_Z_date: "replace_Z (u ''2026-02-01'') = u ''2026-02-01''"
  by code_simp


lemma extract_purchase2: "extract_skybox_metadata basic purchase2 = Inr meta2"
  by (simp add: extract_skybox_metadata_def purchase2_def meta2_def replace_Z_date parse_2026_02_01
      replace_tzinfo_None_def get_def get_default_def Let_def)


section \<open>Claims on the scorer\<close>





lemma last_four_of_note: "extract_last_four basic (PStr (u ''paid CC# 1234'')) = Some (u ''1234'')"
  by code_simp

lemma email_of_note: "extract_email basic (PStr (u ''paid CC# 1234'')) = None"
  by code_simp

lemma parse_afternoon_basic:
  "fromisoformat_basic (replace_Z (u ''2026-02-01T15:00:00Z'')) =
     Inr \<lparr>wall = 20485 * usec_per_day + 54000000000, utcoffset = Some 0\<rparr>"
  by code_simp

lemma parse_afternoon:
  "fromisoformat basic (replace_Z (u ''2026-02-01T15:00:00Z'')) =
     Inr \<lparr>wall = 20485 * usec_per_day + 54000000000, utcoffset = Some 0\<rparr>"
  by (simp add: basic_def parse_afternoon_basic)

lemma extract_purchase3: "extract_skybox_metadata basic purchase3 = Inr meta3"
  by (simp add: extract_skybox_metadata_def purchase3_def purchase2_def meta3_def meta2_def
      replace_Z_date parse_2026_02_01 replace_tzinfo_None_def get_def get_default_def Let_def
      last_four_of_note email_of_note del: extract_email.simps extract_last_four.simps)

lemma extract_purchase4: "extract_skybox_metadata basic purchase4 = Inr meta4"
proof -
  have "createdDate purchase4 = u ''2026-02-01T15:00:00Z''"
    by (simp add: purchase4_def)
  then have "fromisoformat basic (replace_Z (createdDate purchase4)) =
     Inr \<lparr>wall = 20485 * usec_per_day + 54000000000, utcoffset = Some 0\<rparr>"
    by (simp only: parse_afternoon)
  then show ?thesis
    by (simp add: extract_skybox_metadata_def purchase4_def purchase2_def meta4_def meta2_def
      replace_tzinfo_None_def get_def get_default_def Let_def)
qed

lemma date_diff_same_instant:
  "date_diff basic \<lparr>wall = 20485 * usec_per_day, utcoffset = None\<rparr> txn10 = Inr 0"
  by (simp add: date_diff_def txn10_def parse_2026_02_01 datetime_sub_def days_def)

lemma date_diff_afternoon:
  "date_diff basic (meta_created_date meta4) txn10 = Inr 1"
  by (simp add: date_diff_def txn10_def parse_2026_02_01 datetime_sub_def days_def meta4_def
      meta2_def usec_per_day_def)

lemma date_diff_txn11:
  "date_diff basic \<lparr>wall = 20485 * usec_per_day, utcoffset = None\<rparr> txn11 = Inr 0"
  by (simp add: date_diff_def txn11_def txn10_def parse_2026_02_01 datetime_sub_def days_def)

lemma hit_txn11: "last_four_hit meta3 txn11"
  by (simp add: last_four_hit_def meta3_def meta2_def txn11_def txn10_def get_def py_or_def
      str_in_def)

lemma score_of_signals:
  assumes "multiple_criteria_score lib m t = Inr (Some (s, cs, d))"
  shows "\<exists>dd. date_diff lib (meta_created_date m) t = Inr dd
           \<and> d = (float_diff (reveal_amount t) (meta_amount m)) \<and> d < 1
           \<and> cs = signals d dd (last_four_hit m t)
           \<and> s = sum_list (map weight cs)"
  using assms score_cases [of lib m t] by auto

lemma same_day_floor:
  "\<bar>days td\<bar> \<le> 0 \<longleftrightarrow> 0 \<le> td \<and> td < usec_per_day"
  by (auto simp: days_def usec_per_day_def)

text \<open>
  Claim C4. The score of strategy 2 is the sum of the weights of the criteria it
  records and never exceeds 0.90. On an exact amount, a last-4 signal on top of the
  same date signal adds exactly 0.20, and a date signal on top of none, or the same-day
  signal in place of the three-day one, strictly raises the score. A match of strategy 2
  therefore never has confidence 1.0, and a match returned by the selection with
  confidence 1.0 is an order-number match.
\<close>

theorem weighted_score_monotone_capped:
  assumes "multiple_criteria_score lib m t = Inr (Some (s, cs, d))"
      and "multiple_criteria_score lib' m' t' = Inr (Some (s', cs', d'))"
      and "date_diff lib (meta_created_date m) t = Inr dd"
      and "date_diff lib' (meta_created_date m') t' = Inr dd'"
      and "d < fl 0.01" and "d' < fl 0.01"
  shows "s = sum_list (map weight cs) \<and> s \<le> 0.90
       \<and> (dd = dd' \<and> \<not> last_four_hit m t \<and> last_four_hit m' t' \<longrightarrow>
            s' = s + 0.20 \<and> s < s' \<and> cs' = cs @ [''last_four''])
       \<and> (3 < dd \<and> dd' \<le> 3 \<and> (last_four_hit m t \<longleftrightarrow> last_four_hit m' t') \<longrightarrow> s < s')
       \<and> (0 < dd \<and> dd' \<le> 0 \<and> (last_four_hit m t \<longleftrightarrow> last_four_hit m' t') \<longrightarrow> s < s')
       \<and> (\<forall>r. match_by_multiple_criteria lib m t = Inr (Some r) \<longrightarrow>
              confidence_score r \<le> 0.90 \<and> confidence_score r \<noteq> 1)
       \<and> (\<forall>p ts r. match_transactions lib p ts = Inr (Some r) \<and> confidence_score r = 1
              \<longrightarrow> match_criteria r = [''order_number'', ''amount''])"
proof -
  from score_of_signals [OF assms(1)] assms(3)
  have cs: "cs = signals d dd (last_four_hit m t)" and s: "s = sum_list (map weight cs)" by auto
  from score_of_signals [OF assms(2)] assms(4)
  have cs': "cs' = signals d' dd' (last_four_hit m' t')" and s': "s' = sum_list (map weight cs')"
    by auto
  have cap: "s \<le> 0.90" using s cs weight_signals_le [of d dd "last_four_hit m t"] by simp
  have l4: "s' = s + 0.20 \<and> s < s' \<and> cs' = cs @ [''last_four'']"
    if "dd = dd'" "\<not> last_four_hit m t" "last_four_hit m' t'"
    using that s s' cs cs' assms(5,6) by (simp add: signals_def weight_def)
  have dt: "s < s'"
    if "3 < dd" "dd' \<le> 3" "last_four_hit m t \<longleftrightarrow> last_four_hit m' t'"
    using that s s' cs cs' assms(5,6) by (simp add: signals_def weight_def)
  have dt2: "s < s'"
    if "0 < dd" "dd' \<le> 0" "last_four_hit m t \<longleftrightarrow> last_four_hit m' t'"
    using that s s' cs cs' assms(5,6) by (simp add: signals_def weight_def)
  have multi: "confidence_score r \<le> 0.90 \<and> confidence_score r \<noteq> 1"
    if "match_by_multiple_criteria lib m t = Inr (Some r)" for r
    using multi_confidence [OF that] by simp
  have sel: "match_criteria r = [''order_number'', ''amount'']"
    if mt: "match_transactions lib p ts = Inr (Some r)" and one: "confidence_score r = 1"
    for p ts r
  proof -
    from mt obtain mm where ex: "extract_skybox_metadata lib p = Inr mm"
      by (auto simp: match_transactions_def split: sum.splits)
    from match_transactions_Inr [OF ex mt] have "best_of (results lib mm ts) = Some r" by simp
    from best_of_Some [OF this] have "r \<in> set (results lib mm ts)" by auto
    from results_member [OF this] obtain x where "score_txn lib mm x = Inr (Some r)" by blast
    from score_txn_result [OF this] show ?thesis
    proof
      assume "match_by_order_number mm x = Some r"
      from order_number_result [OF this] show ?thesis by simp
    next
      assume "match_by_order_number mm x = None
              \<and> match_by_multiple_criteria lib mm x = Inr (Some r)"
      then have "confidence_score r \<le> 0.9" using multi_confidence by blast
      with one show ?thesis by simp
    qed
  qed
  from s cap l4 dt dt2 multi sel show ?thesis by blast
qed

lemma score_meta2_txn10:
  "multiple_criteria_score basic meta2 txn10 =
     Inr (Some (0.70, [''amount_exact'', ''date_same_day''], 0))"
proof -
  have a: "(float_diff (reveal_amount txn10) (meta_amount meta2)) = 0"
    by (simp add: float_examples txn10_def meta2_def)
  have d: "date_diff basic (meta_created_date meta2) txn10 = Inr 0"
    using date_diff_same_instant by (simp add: meta2_def)
  have h: "\<not> last_four_hit meta2 txn10" by (simp add: last_four_hit_def meta2_def)
  from score_signals [of txn10 meta2 basic 0] a d h
  show ?thesis by (simp add: signals_def weight_def fl_hundredth_n)
qed

lemma score_meta3_txn11:
  "multiple_criteria_score basic meta3 txn11 =
     Inr (Some (0.90, [''amount_exact'', ''date_same_day'', ''last_four''], 0))"
proof -
  have a: "(float_diff (reveal_amount txn11) (meta_amount meta3)) = 0"
    by (simp add: float_examples txn11_def txn10_def meta3_def meta2_def)
  have d: "date_diff basic (meta_created_date meta3) txn11 = Inr 0"
    using date_diff_txn11 by (simp add: meta3_def meta2_def)
  from score_signals [of txn11 meta3 basic 0] a d hit_txn11
  show ?thesis by (simp add: signals_def weight_def fl_hundredth_n)
qed

theorem weighted_score_monotone_capped_witness:
  "multiple_criteria_score basic meta2 txn10 =
     Inr (Some (0.70, [''amount_exact'', ''date_same_day''], 0))
   \<and> multiple_criteria_score basic meta3 txn11 =
     Inr (Some (0.90, [''amount_exact'', ''date_same_day'', ''last_four''], 0))
   \<and> date_diff basic (meta_created_date meta2) txn10 = Inr 0
   \<and> date_diff basic (meta_created_date meta3) txn11 = Inr 0
   \<and> (0::real) < fl 0.01
   \<and> \<not> last_four_hit meta2 txn10 \<and> last_four_hit meta3 txn11
   \<and> (0.90::real) = 0.70 + 0.20 \<and> (0.70::real) < 0.90
   \<and> (\<exists>r. match_by_multiple_criteria basic meta3 txn11 = Inr (Some r)
          \<and> confidence_score r = 0.90)
   \<and> match_by_multiple_criteria basic meta2 txn10 = Inr None"
proof -
  have d2: "date_diff basic (meta_created_date meta2) txn10 = Inr 0"
    using date_diff_same_instant by (simp add: meta2_def)
  have d3: "date_diff basic (meta_created_date meta3) txn11 = Inr 0"
    using date_diff_txn11 by (simp add: meta3_def meta2_def)
  have h: "\<not> last_four_hit meta2 txn10" by (simp add: last_four_hit_def meta2_def)
  have z: "(0::real) < fl 0.01" by (rule fl_hundredth_bounds(1))
  from weighted_score_monotone_capped [OF score_meta2_txn10 score_meta3_txn11 d2 d3 z z]
    h hit_txn11
  have "(0.90::real) = 0.70 + 0.20 \<and> (0.70::real) < 0.90" by blast
  moreover have "\<exists>r. match_by_multiple_criteria basic meta3 txn11 = Inr (Some r)
          \<and> confidence_score r = 0.90"
    by (simp add: match_by_multiple_criteria_def score_meta3_txn11)
  moreover have "match_by_multiple_criteria basic meta2 txn10 = Inr None"
    by (simp add: match_by_multiple_criteria_def score_meta2_txn10)
  ultimately show ?thesis
    using score_meta2_txn10 score_meta3_txn11 d2 d3 h hit_txn11 z by blast
qed

lemma score_txn_unmatched:
  assumes "\<not> truthy (meta_external_ref m)"
      and "multiple_criteria_score lib m t = Inr (Some (s, cs, d))" and "s < 0.75"
  shows "match_by_order_number m t = None \<and> match_by_multiple_criteria lib m t = Inr None
         \<and> score_txn lib m t = Inr None"
  using assms
  by (simp add: match_by_order_number_def match_by_multiple_criteria_def score_txn_def
      match_by_email_metadata_def)

text \<open>
  Without a reference and without last-4 digits an exact amount never suffices: the
  score of strategy 2 is at most 0.70, and it is 0.70 with the criteria
  \<open>[amount_exact, date_same_day]\<close> when the day difference the code computes is 0.
\<close>

lemma exact_amount_no_match:
  assumes "extract_skybox_metadata lib p = Inr m"
      and "\<not> truthy (get (externalRef p))"
      and "extract_last_four lib (get_default (internalNotes p) (PStr [])) = None"
      and "(float_diff (reveal_amount t) (total p)) < fl 0.01"
      and "fromisoformat lib (date t) = Inr d" and "utcoffset d = None"
  shows "(0 \<le> wall d - wall (meta_created_date m)
            \<and> wall d - wall (meta_created_date m) < usec_per_day \<longrightarrow>
            multiple_criteria_score lib m t =
              Inr (Some (0.70, [''amount_exact'', ''date_same_day''],
                         (float_diff (reveal_amount t) (total p)))))
       \<and> (\<exists>s cs. multiple_criteria_score lib m t =
                     Inr (Some (s, cs, (float_diff (reveal_amount t) (total p))))
                 \<and> s \<le> 0.70 \<and> s < 0.75)
       \<and> match_by_multiple_criteria lib m t = Inr None
       \<and> score_txn lib m t = Inr None
       \<and> match_transactions lib p [t] = Inr None"
proof -
  let ?a = "(float_diff (reveal_amount t) (meta_amount m))"
  let ?td = "wall d - wall (meta_created_date m)"
  from extract_fields [OF assms(1)] assms(2,3,4)
  have am: "meta_amount m = total p" and naive: "utcoffset (meta_created_date m) = None"
    and ref: "\<not> truthy (meta_external_ref m)" and l4: "meta_last_four m = None"
    by simp_all
  from l4 have hit: "\<not> last_four_hit m t" by (simp add: last_four_hit_def)
  from assms(5,6) naive have dd: "date_diff lib (meta_created_date m) t = Inr \<bar>days ?td\<bar>"
    by (simp add: date_diff_def datetime_sub_def)
  from assms(4) am have a: "?a < fl 0.01" by simp
  then have a1: "?a < 1" using fl_hundredth_bounds(2) by simp
  from score_signals [OF a1 dd] hit
  have sc: "multiple_criteria_score lib m t =
      Inr (Some (sum_list (map weight (signals ?a \<bar>days ?td\<bar> False)),
                 signals ?a \<bar>days ?td\<bar> False, ?a))" by simp
  have le: "sum_list (map weight (signals ?a \<bar>days ?td\<bar> False)) \<le> 0.70"
    using a by (simp add: signals_def weight_def)
  then have lt: "sum_list (map weight (signals ?a \<bar>days ?td\<bar> False)) < 0.75" by simp
  have same: "multiple_criteria_score lib m t =
      Inr (Some (0.70, [''amount_exact'', ''date_same_day''], (float_diff (reveal_amount t) (total p))))"
    if "0 \<le> ?td \<and> ?td < usec_per_day"
  proof -
    from that have "\<bar>days ?td\<bar> \<le> 0" using same_day_floor [of ?td] by blast
    with sc a am show ?thesis by (simp add: signals_def weight_def)
  qed
  from score_txn_unmatched [OF ref sc lt]
  have none: "match_by_multiple_criteria lib m t = Inr None"
    and st: "score_txn lib m t = Inr None" by simp_all
  from st assms(1) have mt: "match_transactions lib p [t] = Inr None"
    by (simp add: match_transactions_def)
  from sc le lt am have ex: "\<exists>s cs. multiple_criteria_score lib m t =
                     Inr (Some (s, cs, (float_diff (reveal_amount t) (total p))))
                 \<and> s \<le> 0.70 \<and> s < 0.75" by auto
  from same ex none st mt show ?thesis by blast
qed

text \<open>The second end-to-end example of the specification: a score of 0.70 and no match.\<close>

lemma second_example:
  "extract_skybox_metadata basic purchase2 = Inr meta2
   \<and> \<not> truthy (get (externalRef purchase2))
   \<and> extract_last_four basic (get_default (internalNotes purchase2) (PStr [])) = None
   \<and> (float_diff (reveal_amount txn10) (total purchase2)) < fl 0.01
   \<and> fromisoformat basic (date txn10) = Inr \<lparr>wall = 20485 * usec_per_day, utcoffset = None\<rparr>
   \<and> multiple_criteria_score basic meta2 txn10 =
        Inr (Some (0.70, [''amount_exact'', ''date_same_day''], 0))
   \<and> match_transactions basic purchase2 [txn10] = Inr None"
proof -
  let ?d = "\<lparr>wall = 20485 * usec_per_day, utcoffset = None\<rparr>"
  have h2: "\<not> truthy (get (externalRef purchase2))" by (simp add: purchase2_def get_def)
  have h3: "extract_last_four basic (get_default (internalNotes purchase2) (PStr [])) = None"
    by (simp add: purchase2_def get_default_def)
  have h4: "(float_diff (reveal_amount txn10) (total purchase2)) < fl 0.01"
    by (simp add: float_examples txn10_def purchase2_def)
  have h5: "fromisoformat basic (date txn10) = Inr ?d"
    by (simp add: txn10_def parse_2026_02_01)
  have h6: "utcoffset ?d = None" by simp
  from exact_amount_no_match [OF extract_purchase2 h2 h3 h4 h5 h6]
  have "match_transactions basic purchase2 [txn10] = Inr None" by blast
  with extract_purchase2 h2 h3 h4 h5 score_meta2_txn10 show ?thesis by blast
qed

lemma is_candidate_date_diff:
  "is_candidate lib amt created t =
     (case date_diff lib created t of
        Inl e \<Rightarrow> Inl e
      | Inr dd \<Rightarrow> Inr ((float_diff (reveal_amount t) amt) < 5 \<and> dd \<le> 7))"
  by (simp add: is_candidate_def date_diff_def Let_def split: sum.splits)

lemma filter_loop_Inr:
  "filter_loop lib amt created ts acc = Inr cs \<Longrightarrow>
     (\<forall>t\<in>set ts. \<exists>b. is_candidate lib amt created t = Inr b)
     \<and> cs = acc @ filter (\<lambda>t. is_candidate lib amt created t = Inr True) ts"
proof (induction ts arbitrary: acc)
  case Nil
  then show ?case by simp
next
  case (Cons t ts)
  show ?case
  proof (cases "is_candidate lib amt created t")
    case (Inl e)
    with Cons.prems show ?thesis by simp
  next
    case (Inr b)
    with Cons.prems have
      "filter_loop lib amt created ts (if b then acc @ [t] else acc) = Inr cs" by simp
    from Cons.IH [OF this] Inr show ?thesis by auto
  qed
qed

lemma filter_loop_returns:
  "\<forall>t\<in>set ts. \<exists>b. is_candidate lib amt created t = Inr b \<Longrightarrow>
     filter_loop lib amt created ts acc =
       Inr (acc @ filter (\<lambda>t. is_candidate lib amt created t = Inr True) ts)"
proof (induction ts arbitrary: acc)
  case Nil
  then show ?case by simp
next
  case (Cons t ts)
  then obtain b where b: "is_candidate lib amt created t = Inr b" by auto
  from Cons have "filter_loop lib amt created ts (if b then acc @ [t] else acc) =
       Inr ((if b then acc @ [t] else acc)
            @ filter (\<lambda>t. is_candidate lib amt created t = Inr True) ts)" by simp
  with b show ?case by auto
qed

lemma filter_candidates_Inr:
  assumes "extract_skybox_metadata lib p = Inr m"
      and "filter_candidate_transactions lib p ts = Inr cs"
  shows "cs = filter (\<lambda>t. is_candidate lib (total p) (meta_created_date m) t = Inr True) ts"
proof -
  from extract_fields(7) [OF assms(1)] obtain d where
    d: "fromisoformat lib (replace_Z (createdDate p)) = Inr d" "meta_created_date m = replace_tzinfo_None d"
    by blast
  with assms(2) have "filter_loop lib (total p) (meta_created_date m) ts [] = Inr cs"
    by (simp add: filter_candidate_transactions_def)
  from filter_loop_Inr [OF this] show ?thesis by simp
qed

lemma filter_candidates_returns:
  assumes "extract_skybox_metadata lib p = Inr m"
      and "\<forall>t\<in>set ts. parses_naive lib (date t)"
  shows "filter_candidate_transactions lib p ts =
           Inr (filter (\<lambda>t. is_candidate lib (total p) (meta_created_date m) t = Inr True) ts)"
proof -
  from extract_fields(7) [OF assms(1)] obtain d where
    d: "fromisoformat lib (replace_Z (createdDate p)) = Inr d" "meta_created_date m = replace_tzinfo_None d"
    by blast
  have "\<forall>t\<in>set ts. \<exists>b. is_candidate lib (total p) (meta_created_date m) t = Inr b"
  proof
    fix t assume "t \<in> set ts"
    with assms(2) have "parses_naive lib (date t)" by blast
    from date_diff_returns [OF this extract_fields(3) [OF assms(1)]]
    show "\<exists>b. is_candidate lib (total p) (meta_created_date m) t = Inr b"
      by (auto simp: is_candidate_date_diff)
  qed
  from filter_loop_returns [OF this, of "[]"] d show ?thesis
    by (simp add: filter_candidate_transactions_def)
qed

text \<open>
  Claim C5. A transaction that strategy 2 accepts for a purchase has an amount within
  0.01 and a day difference of at most 3, so it passes the test of the candidate
  filter (amount within 5.00, day difference at most 7): the filter, whenever it
  returns, keeps it, and it returns when the dates of the transactions parse to naive
  datetimes.
\<close>

theorem filter_keeps_strategy2_matches:
  assumes "extract_skybox_metadata lib p = Inr m"
      and "match_by_multiple_criteria lib m t = Inr (Some r)"
  shows "is_candidate lib (total p) (meta_created_date m) t = Inr True
       \<and> (float_diff (reveal_amount t) (total p)) < 5.0
       \<and> (\<exists>dd. date_diff lib (meta_created_date m) t = Inr dd \<and> dd \<le> 7)
       \<and> (\<forall>ts cs. t \<in> set ts \<and> filter_candidate_transactions lib p ts = Inr cs
              \<longrightarrow> t \<in> set cs)
       \<and> (\<forall>ts. t \<in> set ts \<and> (\<forall>x\<in>set ts. parses_naive lib (date x)) \<longrightarrow>
              (\<exists>cs. filter_candidate_transactions lib p ts = Inr cs \<and> t \<in> set cs))"
proof -
  from multi_accepts [OF assms(2)] obtain dd where
    dd: "date_diff lib (meta_created_date m) t = Inr dd" and le: "dd \<le> 3"
    and a: "(float_diff (reveal_amount t) (meta_amount m)) < fl 0.01" by blast
  from extract_fields(2) [OF assms(1)] a fl_hundredth_bounds(3)
  have a5: "(float_diff (reveal_amount t) (total p)) < 5.0" by simp
  from dd le a5 have c: "is_candidate lib (total p) (meta_created_date m) t = Inr True"
    by (simp add: is_candidate_date_diff)
  have keep: "t \<in> set cs"
    if "t \<in> set ts" "filter_candidate_transactions lib p ts = Inr cs" for ts cs
    using filter_candidates_Inr [OF assms(1) that(2)] that(1) c by simp
  have ret: "\<exists>cs. filter_candidate_transactions lib p ts = Inr cs \<and> t \<in> set cs"
    if "t \<in> set ts" "\<forall>x\<in>set ts. parses_naive lib (date x)" for ts
    using filter_candidates_returns [OF assms(1) that(2)] that(1) c by simp
  from dd le have "\<exists>dd. date_diff lib (meta_created_date m) t = Inr dd \<and> dd \<le> 7" by auto
  with c a5 keep ret show ?thesis by blast
qed

lemma multi_meta3_txn11:
  "match_by_multiple_criteria basic meta3 txn11 =
     Inr (Some \<lparr>skybox_id = 3, reveal_id = 11, confidence_score = 0.90,
                 match_criteria = [''amount_exact'', ''date_same_day'', ''last_four''],
                 metadata = [(''amount_diff'', MNum 0), (''is_automated'', MBool True)]\<rparr>)"
  unfolding match_by_multiple_criteria_def score_meta3_txn11
  by (simp add: meta3_def meta2_def txn11_def txn10_def)

theorem filter_keeps_strategy2_matches_witness:
  "extract_skybox_metadata basic purchase3 = Inr meta3
   \<and> match_by_multiple_criteria basic meta3 txn11 =
     Inr (Some \<lparr>skybox_id = 3, reveal_id = 11, confidence_score = 0.90,
                 match_criteria = [''amount_exact'', ''date_same_day'', ''last_four''],
                 metadata = [(''amount_diff'', MNum 0), (''is_automated'', MBool True)]\<rparr>)
   \<and> txn11 \<in> set [txn12, txn11]
   \<and> parses_naive basic (date txn12)
   \<and> parses_naive basic (date txn11)
   \<and> is_candidate basic (total purchase3) (meta_created_date meta3) txn11 = Inr True
   \<and> (\<exists>cs. filter_candidate_transactions basic purchase3 [txn12, txn11] = Inr cs
          \<and> txn11 \<in> set cs)"
proof -
  have p: "parses_naive basic (date txn12)"
    "parses_naive basic (date txn11)"
    by (simp_all add: parses_naive_def txn12_def txn11_def txn10_def parse_2026_02_01)
  then have all: "\<forall>x\<in>set [txn12, txn11]. parses_naive basic (date x)" by simp
  have mem: "txn11 \<in> set [txn12, txn11]" by simp
  from filter_keeps_strategy2_matches [OF extract_purchase3 multi_meta3_txn11] mem all
  have "is_candidate basic (total purchase3) (meta_created_date meta3) txn11 = Inr True
        \<and> (\<exists>cs. filter_candidate_transactions basic purchase3 [txn12, txn11] = Inr cs
          \<and> txn11 \<in> set cs)" by blast
  with extract_purchase3 multi_meta3_txn11 mem p show ?thesis by blast
qed

lemma match_transactions_skybox_id:
  assumes "match_transactions lib p ts = Inr (Some r)"
  shows "skybox_id r = purchase_id p"
proof -
  from assms obtain m where ex: "extract_skybox_metadata lib p = Inr m"
    by (auto simp: match_transactions_def split: sum.splits)
  from match_transactions_Inr [OF ex assms] have "best_of (results lib m ts) = Some r" by simp
  from best_of_Some [OF this] have "r \<in> set (results lib m ts)" by auto
  from results_member [OF this] obtain t where "score_txn lib m t = Inr (Some r)" by blast
  from score_txn_confidence [OF this] extract_fields(1) [OF ex] show ?thesis by simp
qed

lemma match_one_skybox_id:
  "match_one lib txns p = Inr (Some r) \<Longrightarrow> skybox_id r = purchase_id p"
  by (auto simp: match_one_def match_transactions_skybox_id split: sum.splits)

lemma batch_loop_step:
  "batch_loop lib txns (p # ps) matched unmatched =
     (case match_one lib txns p of
        Inl e \<Rightarrow> Inl e
      | Inr (Some r) \<Rightarrow> batch_loop lib txns ps (matched @ [r]) unmatched
      | Inr None \<Rightarrow> batch_loop lib txns ps matched (unmatched @ [p]))"
  by (simp add: match_one_def split: sum.splits)

lemma batch_loop_Inr:
  "batch_loop lib txns ps matched unmatched = Inr (ms, us) \<Longrightarrow>
     (\<forall>p\<in>set ps. \<exists>x. match_one lib txns p = Inr x)
     \<and> ms = matched @ concat (map (\<lambda>p. case match_one lib txns p of
                                          Inr (Some r) \<Rightarrow> [r] | _ \<Rightarrow> []) ps)
     \<and> us = unmatched @ filter (\<lambda>p. match_one lib txns p = Inr None) ps"
proof (induction ps arbitrary: matched unmatched)
  case Nil
  then show ?case by simp
next
  case (Cons p ps)
  show ?case
  proof (cases "match_one lib txns p")
    case (Inl e)
    with Cons.prems show ?thesis by (simp add: batch_loop_step del: batch_loop.simps)
  next
    case (Inr x)
    show ?thesis
    proof (cases x)
      case None
      with Inr Cons.prems have
        "batch_loop lib txns ps matched (unmatched @ [p]) = Inr (ms, us)"
        by (simp add: batch_loop_step del: batch_loop.simps)
      from Cons.IH [OF this] Inr None show ?thesis by simp
    next
      case (Some r)
      with Inr Cons.prems have
        "batch_loop lib txns ps (matched @ [r]) unmatched = Inr (ms, us)"
        by (simp add: batch_loop_step del: batch_loop.simps)
      from Cons.IH [OF this] Inr Some show ?thesis by simp
    qed
  qed
qed

lemma batch_loop_returns:
  "\<forall>p\<in>set ps. \<exists>x. match_one lib txns p = Inr x \<Longrightarrow>
     \<exists>ms us. batch_loop lib txns ps matched unmatched = Inr (ms, us)"
proof (induction ps arbitrary: matched unmatched)
  case Nil
  then show ?case by simp
next
  case (Cons p ps)
  then obtain x where x: "match_one lib txns p = Inr x" by auto
  from Cons have ih: "\<And>ma um. \<exists>ms us. batch_loop lib txns ps ma um = Inr (ms, us)"
    by simp
  from x ih show ?case by (cases x) (simp_all add: batch_loop_step del: batch_loop.simps)
qed

lemma partition_ids:
  assumes "\<forall>p\<in>set ps. \<exists>x. match_one lib txns p = Inr x"
  shows "mset (map skybox_id (concat (map (\<lambda>p. case match_one lib txns p of
                                          Inr (Some r) \<Rightarrow> [r] | _ \<Rightarrow> []) ps)))
         + mset (map purchase_id (filter (\<lambda>p. match_one lib txns p = Inr None) ps))
         = mset (map purchase_id ps)"
  using assms
proof (induction ps)
  case Nil
  then show ?case by simp
next
  case (Cons p ps)
  then obtain x where x: "match_one lib txns p = Inr x" by auto
  from Cons have ih: "mset (map skybox_id (concat (map (\<lambda>p. case match_one lib txns p of
                                          Inr (Some r) \<Rightarrow> [r] | _ \<Rightarrow> []) ps)))
         + mset (map purchase_id (filter (\<lambda>p. match_one lib txns p = Inr None) ps))
         = mset (map purchase_id ps)" by simp
  show ?case
  proof (cases x)
    case None
    with x ih show ?thesis by simp
  next
    case (Some r)
    with x match_one_skybox_id [of lib txns p r] ih show ?thesis by simp
  qed
qed

lemma partition_lengths:
  assumes "\<forall>p\<in>set ps. \<exists>x. match_one lib txns p = Inr x"
  shows "length (concat (map (\<lambda>p. case match_one lib txns p of
                                          Inr (Some r) \<Rightarrow> [r] | _ \<Rightarrow> []) ps))
         + length (filter (\<lambda>p. match_one lib txns p = Inr None) ps)
         = length ps"
  using assms
proof (induction ps)
  case Nil
  then show ?case by simp
next
  case (Cons p ps)
  then obtain x where x: "match_one lib txns p = Inr x" by auto
  from Cons have ih: "length (concat (map (\<lambda>p. case match_one lib txns p of
                                          Inr (Some r) \<Rightarrow> [r] | _ \<Rightarrow> []) ps))
         + length (filter (\<lambda>p. match_one lib txns p = Inr None) ps)
         = length ps" by simp
  from x ih show ?case by (cases x) simp_all
qed

lemma match_one_returns:
  assumes "parses lib (replace_Z (createdDate p))"
      and "\<forall>t\<in>set txns. parses_naive lib (date t)"
  shows "\<exists>x. match_one lib txns p = Inr x"
proof -
  from assms(1) obtain m where ex: "extract_skybox_metadata lib p = Inr m"
    by (auto simp: parses_def extract_skybox_metadata_def Let_def split: sum.splits)
  let ?cs = "filter (\<lambda>t. is_candidate lib (total p) (meta_created_date m) t = Inr True) txns"
  from filter_candidates_returns [OF ex assms(2)]
  have f: "filter_candidate_transactions lib p txns = Inr ?cs" .
  from assms(2) have "\<forall>t\<in>set ?cs. parses_naive lib (date t)" by simp
  with extract_fields(3) [OF ex] have "\<forall>t\<in>set ?cs. \<exists>y. score_txn lib m t = Inr y"
    using score_txn_returns by blast
  from match_transactions_returns [OF ex this] f show ?thesis
    by (simp add: match_one_def)
qed







lemma parse_2026_02_02_basic:
  "fromisoformat_basic (u ''2026-02-02'') = Inr \<lparr>wall = 20486 * usec_per_day, utcoffset = None\<rparr>"
  by code_simp

lemma parse_2026_02_02:
  "fromisoformat basic (u ''2026-02-02'') = Inr \<lparr>wall = 20486 * usec_per_day, utcoffset = None\<rparr>"
  by (simp add: basic_def parse_2026_02_02_basic)


lemma date_diff_next_day:
  "date_diff basic (meta_created_date meta4) txn15 = Inr 0"
  by (simp add: date_diff_def txn15_def txn10_def parse_2026_02_02 datetime_sub_def days_def
      meta4_def meta2_def usec_per_day_def)


lemma score_meta4_txn10:
  "multiple_criteria_score basic meta4 txn10 =
     Inr (Some (0.60, [''amount_exact'', ''date_within_3_days''], 0))"
proof -
  have a: "(float_diff (reveal_amount txn10) (meta_amount meta4)) = 0"
    by (simp add: float_examples txn10_def meta4_def meta2_def)
  have h: "\<not> last_four_hit meta4 txn10" by (simp add: last_four_hit_def meta4_def meta2_def)
  from score_signals [of txn10 meta4 basic 1] a date_diff_afternoon h
  show ?thesis by (simp add: signals_def weight_def fl_hundredth_n)
qed

lemma score_meta4_txn15:
  "multiple_criteria_score basic meta4 txn15 =
     Inr (Some (0.70, [''amount_exact'', ''date_same_day''], 0))"
proof -
  have a: "(float_diff (reveal_amount txn15) (meta_amount meta4)) = 0"
    by (simp add: float_examples txn15_def txn10_def meta4_def meta2_def)
  have h: "\<not> last_four_hit meta4 txn15" by (simp add: last_four_hit_def meta4_def meta2_def)
  from score_signals [of txn15 meta4 basic 0] a date_diff_next_day h
  show ?thesis by (simp add: signals_def weight_def fl_hundredth_n)
qed

text \<open>
  Claim C3 at its failing input. \<open>purchase4\<close> was created at 15:00 on 2026-02-01,
  with the exact amount, no reference and no last-4 digits. \<open>txn10\<close> is dated
  2026-02-01, the same calendar day: the difference is minus fifteen hours, whose
  \<^verbatim>\<open>days\<close> are -1, so the code records \<open>date_within_3_days\<close> and scores 0.60 where
  the claim says \<open>date_same_day\<close> and 0.70. \<open>txn15\<close> is dated the next calendar day:
  the difference is plus nine hours, whose \<^verbatim>\<open>days\<close> are 0, and the code records
  \<open>date_same_day\<close>. In the example of the specification, where both dates are the
  text 2026-02-01, the score is 0.70 and there is no match.
\<close>

theorem same_day_signal_on_floored_days:
  "extract_skybox_metadata basic purchase4 = Inr meta4
   \<and> \<not> truthy (get (externalRef purchase4))
   \<and> meta_last_four meta4 = None
   \<and> (float_diff (reveal_amount txn10) (total purchase4)) < fl 0.01
   \<and> fromisoformat basic (date txn10) = Inr \<lparr>wall = 20485 * usec_per_day, utcoffset = None\<rparr>
   \<and> calendar_day \<lparr>wall = 20485 * usec_per_day, utcoffset = None\<rparr>
       = calendar_day (meta_created_date meta4)
   \<and> multiple_criteria_score basic meta4 txn10 =
        Inr (Some (0.60, [''amount_exact'', ''date_within_3_days''], 0))
   \<and> (0.60::real) \<noteq> 0.70
   \<and> fromisoformat basic (date txn15) = Inr \<lparr>wall = 20486 * usec_per_day, utcoffset = None\<rparr>
   \<and> calendar_day \<lparr>wall = 20486 * usec_per_day, utcoffset = None\<rparr>
       = calendar_day (meta_created_date meta4) + 1
   \<and> multiple_criteria_score basic meta4 txn15 =
        Inr (Some (0.70, [''amount_exact'', ''date_same_day''], 0))
   \<and> multiple_criteria_score basic meta2 txn10 =
        Inr (Some (0.70, [''amount_exact'', ''date_same_day''], 0))
   \<and> match_transactions basic purchase2 [txn10] = Inr None"
proof -
  have h2: "\<not> truthy (get (externalRef purchase4))"
    by (simp add: purchase4_def purchase2_def get_def)
  have h3: "meta_last_four meta4 = None" by (simp add: meta4_def meta2_def)
  have h4: "(float_diff (reveal_amount txn10) (total purchase4)) < fl 0.01"
    by (simp add: float_examples txn10_def purchase4_def purchase2_def)
  have h5: "fromisoformat basic (date txn10) = Inr \<lparr>wall = 20485 * usec_per_day, utcoffset = None\<rparr>"
    by (simp add: txn10_def parse_2026_02_01)
  have h6: "calendar_day \<lparr>wall = 20485 * usec_per_day, utcoffset = None\<rparr>
       = calendar_day (meta_created_date meta4)"
    by (simp add: calendar_day_def meta4_def meta2_def usec_per_day_def)
  have h8: "(0.60::real) \<noteq> 0.70" by simp
  have h9: "fromisoformat basic (date txn15) = Inr \<lparr>wall = 20486 * usec_per_day, utcoffset = None\<rparr>"
    by (simp add: txn15_def parse_2026_02_02)
  have h10: "calendar_day \<lparr>wall = 20486 * usec_per_day, utcoffset = None\<rparr>
       = calendar_day (meta_created_date meta4) + 1"
    by (simp add: calendar_day_def meta4_def meta2_def usec_per_day_def)
  from second_example have h11: "match_transactions basic purchase2 [txn10] = Inr None" by blast
  from extract_purchase4 h2 h3 h4 h5 h6 score_meta4_txn10 h8 h9 h10 score_meta4_txn15
    score_meta2_txn10 h11
  show ?thesis by blast
qed

lemma batch_example:
  "batch_match_transactions basic [purchase3, purchase2] [txn10, txn11] =
     Inr ([result3], [purchase2])"
  by code_simp

lemma batch_match_same:
  "batch_match lib ps txns = batch_match_transactions lib ps txns"
  by (simp add: batch_match_def batch_match_transactions_def)

lemma disjoint_of_partition:
  assumes "mset xs + mset ys = mset zs" and "distinct zs"
  shows "set xs \<inter> set ys = {}"
proof -
  from assms(1) have "mset (xs @ ys) = mset zs" by simp
  with assms(2) have "distinct (xs @ ys)" by (metis mset_eq_imp_distinct_iff)
  then show ?thesis by simp
qed

text \<open>
  Claim C6. Whenever the batch returns, the matched results and the unmatched purchases
  partition the purchases: their lengths add up to the number of purchases, the
  purchase ids of the matched results together with the ids of the unmatched purchases
  are the ids of the input, each with its multiplicity, the unmatched purchases are
  purchases of the input, and with distinct ids no purchase is in both lists. The batch
  of the reconciliation service is the same function. The batch returns when the
  creation dates of the purchases parse and the dates of the transactions parse to naive
  datetimes.
\<close>

theorem batch_partitions_purchases:
  "(\<forall>ms us. batch_match_transactions lib ps txns = Inr (ms, us) \<longrightarrow>
       length ms + length us = length ps
     \<and> mset (map skybox_id ms) + mset (map purchase_id us) = mset (map purchase_id ps)
     \<and> mset us \<subseteq># mset ps
     \<and> (distinct (map purchase_id ps) \<longrightarrow>
           set (map skybox_id ms) \<inter> set (map purchase_id us) = {}))
   \<and> batch_match lib ps txns = batch_match_transactions lib ps txns
   \<and> ((\<forall>p\<in>set ps. parses lib (replace_Z (createdDate p)))
        \<and> (\<forall>t\<in>set txns. parses_naive lib (date t)) \<longrightarrow>
        (\<exists>ms us. batch_match_transactions lib ps txns = Inr (ms, us)))"
proof -
  let ?sp = "sorted_purchases ps"
  have part: "length ms + length us = length ps
     \<and> mset (map skybox_id ms) + mset (map purchase_id us) = mset (map purchase_id ps)
     \<and> mset us \<subseteq># mset ps
     \<and> (distinct (map purchase_id ps) \<longrightarrow>
           set (map skybox_id ms) \<inter> set (map purchase_id us) = {})"
    if b: "batch_match_transactions lib ps txns = Inr (ms, us)" for ms us
  proof -
    from b have "batch_loop lib txns ?sp [] [] = Inr (ms, us)"
      by (simp add: batch_match_transactions_def)
    from batch_loop_Inr [OF this] have
      all: "\<forall>p\<in>set ?sp. \<exists>x. match_one lib txns p = Inr x" and
      ms: "ms = concat (map (\<lambda>p. case match_one lib txns p of
                                    Inr (Some r) \<Rightarrow> [r] | _ \<Rightarrow> []) ?sp)" and
      us: "us = filter (\<lambda>p. match_one lib txns p = Inr None) ?sp"
      by simp_all
    have sp: "mset ?sp = mset ps" "length ?sp = length ps"
      by (simp_all add: sorted_purchases_def)
    from partition_lengths [OF all] ms us sp have len: "length ms + length us = length ps"
      by simp
    from sp(1) have "mset (map purchase_id ?sp) = mset (map purchase_id ps)"
      by (metis mset_map)
    with partition_ids [OF all] ms us
    have ids: "mset (map skybox_id ms) + mset (map purchase_id us) = mset (map purchase_id ps)"
      by simp
    have "mset us \<subseteq># mset ?sp" unfolding us by simp
    with sp(1) have sub: "mset us \<subseteq># mset ps" by simp
    have dis: "set (map skybox_id ms) \<inter> set (map purchase_id us) = {}"
      if "distinct (map purchase_id ps)"
      using disjoint_of_partition [OF ids that] .
    from len ids sub dis show ?thesis by blast
  qed
  have ret: "\<exists>ms us. batch_match_transactions lib ps txns = Inr (ms, us)"
    if "\<forall>p\<in>set ps. parses lib (replace_Z (createdDate p))"
       "\<forall>t\<in>set txns. parses_naive lib (date t)"
  proof -
    from that have "\<forall>p\<in>set ?sp. \<exists>x. match_one lib txns p = Inr x"
      using match_one_returns by (simp add: sorted_purchases_def)
    from batch_loop_returns [OF this] show ?thesis
      by (simp add: batch_match_transactions_def)
  qed
  from part ret batch_match_same show ?thesis by blast
qed

theorem batch_partitions_purchases_witness:
  "batch_match_transactions basic [purchase3, purchase2] [txn10, txn11] =
     Inr ([result3], [purchase2])
   \<and> length [result3] + length [purchase2] = length [purchase3, purchase2]
   \<and> mset (map skybox_id [result3]) + mset (map purchase_id [purchase2])
       = mset (map purchase_id [purchase3, purchase2])
   \<and> distinct (map purchase_id [purchase3, purchase2])
   \<and> set (map skybox_id [result3]) \<inter> set (map purchase_id [purchase2]) = {}
   \<and> batch_match basic [purchase3, purchase2] [txn10, txn11] = Inr ([result3], [purchase2])"
proof -
  have d: "distinct (map purchase_id [purchase3, purchase2])"
    by (simp add: purchase3_def purchase2_def)
  from batch_partitions_purchases [of basic "[purchase3, purchase2]" "[txn10, txn11]"]
    batch_example d
  show ?thesis by auto
qed

lemma tie_example:
  "match_transactions basic purchase3 [txn10, txn11, txn16] = Inr (Some result3)"
  by code_simp

lemma tie_scores:
  "score_txn basic meta3 txn10 = Inr None"
  "score_txn basic meta3 txn11 = Inr (Some result3)"
  "score_txn basic meta3 txn16 = Inr (Some (result3\<lparr>reveal_id := 16\<rparr>))"
  by code_simp+

text \<open>
  Claim C10. In the model \<open>match_transactions\<close> is a function of the library, the
  purchase and the list of transactions. A match it returns is the result of the
  scorer for a transaction of the list, with confidence at least 0.75; every scored
  transaction before it has a strictly smaller confidence and every one after it a
  confidence that is not greater, so among several candidates of greatest confidence
  the earliest wins. It returns no match only when no transaction is scored, and it
  returns when the dates of the transactions parse to naive datetimes.
\<close>

theorem first_greatest_candidate_wins:
  assumes "extract_skybox_metadata lib p = Inr m"
  shows "(\<forall>r. match_transactions lib p ts = Inr (Some r) \<longrightarrow>
            (\<exists>pre t post. ts = pre @ t # post \<and> score_txn lib m t = Inr (Some r)
               \<and> (\<forall>x\<in>set pre. \<forall>r'. score_txn lib m x = Inr (Some r') \<longrightarrow>
                     confidence_score r' < confidence_score r)
               \<and> (\<forall>x\<in>set post. \<forall>r'. score_txn lib m x = Inr (Some r') \<longrightarrow>
                     confidence_score r' \<le> confidence_score r)
               \<and> 0.75 \<le> confidence_score r))
       \<and> (match_transactions lib p ts = Inr None \<longrightarrow>
            (\<forall>t\<in>set ts. score_txn lib m t = Inr None))
       \<and> ((\<forall>t\<in>set ts. parses_naive lib (date t)) \<longrightarrow>
            (\<exists>res. match_transactions lib p ts = Inr res))"
proof -
  have some: "\<exists>pre t post. ts = pre @ t # post \<and> score_txn lib m t = Inr (Some r)
               \<and> (\<forall>x\<in>set pre. \<forall>r'. score_txn lib m x = Inr (Some r') \<longrightarrow>
                     confidence_score r' < confidence_score r)
               \<and> (\<forall>x\<in>set post. \<forall>r'. score_txn lib m x = Inr (Some r') \<longrightarrow>
                     confidence_score r' \<le> confidence_score r)
               \<and> 0.75 \<le> confidence_score r"
    if mt: "match_transactions lib p ts = Inr (Some r)" for r
  proof -
    from match_transactions_Inr [OF assms mt] have b: "best_of (results lib m ts) = Some r"
      by simp
    from best_of_Some [OF b] obtain cpre cpost where
      sp: "results lib m ts = cpre @ r # cpost"
      and lt: "\<forall>x\<in>set cpre. confidence_score x < confidence_score r"
      and le: "\<forall>x\<in>set cpost. confidence_score x \<le> confidence_score r" by blast
    from results_split [OF sp] obtain pre t post where
      ts: "ts = pre @ t # post" and t: "score_txn lib m t = Inr (Some r)"
      and pre: "results lib m pre = cpre" and post: "results lib m post = cpost" by blast
    have "\<forall>x\<in>set pre. \<forall>r'. score_txn lib m x = Inr (Some r') \<longrightarrow>
            confidence_score r' < confidence_score r"
      using member_results pre lt by blast
    moreover have "\<forall>x\<in>set post. \<forall>r'. score_txn lib m x = Inr (Some r') \<longrightarrow>
            confidence_score r' \<le> confidence_score r"
      using member_results post le by blast
    moreover from best_of_results_floor [OF b] have "0.75 \<le> confidence_score r" .
    ultimately show ?thesis using ts t by blast
  qed
  have none: "\<forall>t\<in>set ts. score_txn lib m t = Inr None"
    if mt: "match_transactions lib p ts = Inr None"
  proof
    fix t assume t: "t \<in> set ts"
    from match_transactions_Inr [OF assms mt] have
      all: "\<forall>t\<in>set ts. \<exists>x. score_txn lib m t = Inr x" and
      b: "best_of (results lib m ts) = None" by simp_all
    from b have e: "results lib m ts = []"
      by (cases "results lib m ts") (simp_all add: best_of_def)
    from all t obtain x where x: "score_txn lib m t = Inr x" by blast
    show "score_txn lib m t = Inr None"
    proof (cases x)
      case None
      with x show ?thesis by simp
    next
      case (Some r)
      with x t have "r \<in> set (results lib m ts)" using member_results by blast
      with e show ?thesis by simp
    qed
  qed
  have ret: "\<exists>res. match_transactions lib p ts = Inr res"
    if ok: "\<forall>t\<in>set ts. parses_naive lib (date t)"
  proof -
    from extract_fields(3) [OF assms] ok have "\<forall>x\<in>set ts. \<exists>y. score_txn lib m x = Inr y"
      using score_txn_returns by blast
    from match_transactions_returns [OF assms this] show ?thesis by blast
  qed
  from some none ret show ?thesis by blast
qed

theorem first_greatest_candidate_wins_witness:
  "extract_skybox_metadata basic purchase3 = Inr meta3
   \<and> match_transactions basic purchase3 [txn10, txn11, txn16] = Inr (Some result3)
   \<and> score_txn basic meta3 txn10 = Inr None
   \<and> score_txn basic meta3 txn11 = Inr (Some result3)
   \<and> score_txn basic meta3 txn16 = Inr (Some (result3\<lparr>reveal_id := 16\<rparr>))
   \<and> confidence_score (result3\<lparr>reveal_id := 16\<rparr>) = confidence_score result3
   \<and> reveal_id result3 = txn_id txn11
   \<and> (\<exists>pre t post. [txn10, txn11, txn16] = pre @ t # post
          \<and> score_txn basic meta3 t = Inr (Some result3)
          \<and> 0.75 \<le> confidence_score result3)"
proof -
  from first_greatest_candidate_wins [OF extract_purchase3, of "[txn10, txn11, txn16]"]
    tie_example
  have "\<exists>pre t post. [txn10, txn11, txn16] = pre @ t # post
          \<and> score_txn basic meta3 t = Inr (Some result3)
          \<and> 0.75 \<le> confidence_score result3" by blast
  moreover have "confidence_score (result3\<lparr>reveal_id := 16\<rparr>) = confidence_score result3"
    by simp
  moreover have "reveal_id result3 = txn_id txn11"
    by (simp add: result3_def txn11_def)
  ultimately show ?thesis using extract_purchase3 tie_example tie_scores by blast
qed

lemma batch_match_Nil: "batch_match lib [] ts = Inr ([], [])"
  by (simp add: batch_match_def sorted_purchases_def)

text \<open>
  Claim C7, amended. If the fetch of the purchases raises, \<open>reconcile_transactions\<close>
  returns a result with all counts zero, no matches and the message of the exception as
  the only error. If the fetch of the transactions raises after the purchases were
  fetched, it returns the same result except that \<open>total_purchases\<close> is the number of
  purchases fetched. In both cases the result does not depend on the library or on the
  content of the purchases: no matching is attempted. (The debugger breakpoint at the
  head of the \<^verbatim>\<open>try\<close> block is taken to hand control back.)
\<close>

theorem fetch_failure_recorded:
  "reconcile_transactions lib now None (Inl e) get_unmatched_transactions =
     \<lparr>timestamp = now 0, total_purchases = 0, total_transactions = 0, matches_found = 0,
      matches_updated = 0, unmatched_purchases = 0, errors = [str_error e], matches = []\<rparr>
   \<and> reconcile_transactions lib now None (Inr purchases) (Inl e) =
     \<lparr>timestamp = now 0, total_purchases = length purchases, total_transactions = 0,
      matches_found = 0, matches_updated = 0, unmatched_purchases = 0,
      errors = [str_error e], matches = []\<rparr>"
  by (simp add: reconcile_transactions_def except_branch_def)

text \<open>
  Claim C7 as worded fails when the second fetch raises: one purchase was fetched, the
  portal raises, and the result counts one purchase instead of zero.
\<close>

theorem fetch_failure_counts_counterexample:
  "reconcile_transactions basic clock None (Inr [purchase2]) (Inl (Raised (u ''portal down''))) =
     \<lparr>timestamp = u ''2026-02-03T09:00:00'', total_purchases = 1, total_transactions = 0,
      matches_found = 0, matches_updated = 0, unmatched_purchases = 0,
      errors = [u ''portal down''], matches = []\<rparr>
   \<and> total_purchases (reconcile_transactions basic clock None (Inr [purchase2])
         (Inl (Raised (u ''portal down'')))) \<noteq> 0"
  by (simp add: reconcile_transactions_def except_branch_def clock_def)

text \<open>
  Claim C8 at its failing input. With no purchases the batch returns two empty lists,
  the result is built, and the log line that formats
  \<^verbatim>\<open>result.matches_found/result.total_purchases*100\<close> divides by zero inside the \<^verbatim>\<open>try\<close>
  block: the \<^verbatim>\<open>except\<close> branch returns a result whose only error is the message of the
  \<^verbatim>\<open>ZeroDivisionError\<close>, stamped with the second reading of the clock. The summary of
  the reporting service guards the same division and reports 0 for that result.
\<close>

theorem zero_purchases_divide_by_zero:
  "reconcile_transactions lib now None (Inr []) (Inr transactions) =
     \<lparr>timestamp = now 1, total_purchases = 0, total_transactions = length transactions,
      matches_found = 0, matches_updated = 0, unmatched_purchases = 0,
      errors = [u ''division by zero''], matches = []\<rparr>
   \<and> errors (reconcile_transactions lib now None (Inr []) (Inr transactions)) \<noteq> []
   \<and> summary_success_rate
        (reconcile_transactions lib now None (Inr []) (Inr transactions)) = 0"
  by (simp add: reconcile_transactions_def except_branch_def batch_match_Nil truediv_def
      summary_success_rate_def Let_def)

lemma counts_bounds:
  assumes "k \<in> set (counts lib ic c lo hi s)"
  shows "lo \<le> k \<and> k \<le> length (takeWhile (in_cls lib ic c) s)
         \<and> (\<forall>h. hi = Some h \<longrightarrow> k \<le> h)"
  using assms by (auto simp: counts_def Let_def split: option.splits)

lemma take_within_run:
  "k \<le> length (takeWhile P s) \<Longrightarrow> \<forall>x\<in>set (take k s). P x"
proof (induction s arbitrary: k)
  case Nil
  then show ?case by simp
next
  case (Cons x xs)
  then show ?case by (cases k) (auto split: if_splits)
qed

lemma counts_take:
  assumes "k \<in> set (counts lib ic c lo hi s)"
  shows "length (take k s) = k \<and> (\<forall>x\<in>set (take k s). in_cls lib ic c x)"
proof -
  from counts_bounds [OF assms] have k: "k \<le> length (takeWhile (in_cls lib ic c) s)" by simp
  have "length (takeWhile (in_cls lib ic c) s) \<le> length s" by (rule length_takeWhile_le)
  with k have len: "length (take k s) = k" by simp
  from k have "\<forall>x\<in>set (take k s). in_cls lib ic c x" by (rule take_within_run)
  with len show ?thesis by simp
qed

lemma matches_at_member:
  assumes "(m, g) \<in> set (matches_at lib ic ((c, lo, hi, cap) # its) s)"
  shows "\<exists>k m' g'. k \<in> set (counts lib ic c lo hi s)
           \<and> (m', g') \<in> set (matches_at lib ic its (drop k s))
           \<and> m = take k s @ m' \<and> g = (if cap then take k s else g')"
  using assms by (cases cap) fastforce+

lemma matches_at_prefix:
  "(m, g) \<in> set (matches_at lib ic pat s) \<Longrightarrow> prefix m s"
proof (induction pat arbitrary: s m g)
  case Nil
  then show ?case by simp
next
  case (Cons it its)
  obtain c lo hi cap where it: "it = (c, lo, hi, cap)" by (cases it) auto
  from matches_at_member [OF Cons.prems [unfolded it]] obtain k m' g' where
    "(m', g') \<in> set (matches_at lib ic its (drop k s))" and m: "m = take k s @ m'"
    by blast
  from Cons.IH [OF this(1)] have "prefix m' (drop k s)" .
  then have "prefix (take k s @ m') (take k s @ drop k s)" by (simp only: same_prefix_prefix)
  then have "prefix (take k s @ m') s" by (simp only: append_take_drop_id)
  with m show ?case by simp
qed

lemma matches_at_group:
  "(m, g) \<in> set (matches_at lib ic pat s) \<Longrightarrow>
     (case capture pat of
        None \<Rightarrow> g = []
      | Some (c, lo, hi) \<Rightarrow> sublist g m \<and> lo \<le> length g
          \<and> (\<forall>h. hi = Some h \<longrightarrow> length g \<le> h) \<and> (\<forall>x\<in>set g. in_cls lib ic c x))"
proof (induction pat arbitrary: s m g)
  case Nil
  then show ?case by simp
next
  case (Cons it its)
  obtain c lo hi cap where it: "it = (c, lo, hi, cap)" by (cases it) auto
  from matches_at_member [OF Cons.prems [unfolded it]] obtain k m' g' where
    k: "k \<in> set (counts lib ic c lo hi s)" and
    r: "(m', g') \<in> set (matches_at lib ic its (drop k s))" and
    m: "m = take k s @ m'" and g: "g = (if cap then take k s else g')"
    by blast
  show ?case
  proof (cases cap)
    case True
    from counts_take [OF k] counts_bounds [OF k] True g m it show ?thesis
      by (auto simp: sublist_append)
  next
    case False
    with g have gg: "g = g'" by simp
    from Cons.IH [OF r] False it gg m show ?thesis
      by (auto split: option.splits simp: sublist_append)
  qed
qed

lemma re_search_Some:
  "re_search lib ic pat s = Some (m, g) \<Longrightarrow>
     \<exists>i. (m, g) \<in> set (matches_at lib ic pat (drop i s))"
proof (induction s)
  case Nil
  then show ?case by (auto split: list.splits)
next
  case (Cons x xs)
  show ?case
  proof (cases "matches_at lib ic pat (x # xs)")
    case Nil
    with Cons.prems have "re_search lib ic pat xs = Some (m, g)" by simp
    from Cons.IH [OF this] obtain i where "(m, g) \<in> set (matches_at lib ic pat (drop i xs))"
      by blast
    then have "(m, g) \<in> set (matches_at lib ic pat (drop (Suc i) (x # xs)))" by simp
    then show ?thesis by blast
  next
    case (Cons r rs)
    with Cons.prems have "r = (m, g)" by simp
    with Cons have "(m, g) \<in> set (matches_at lib ic pat (drop 0 (x # xs)))" by simp
    then show ?thesis by blast
  qed
qed

lemma re_search_sublist:
  assumes "re_search lib ic pat s = Some (m, g)"
  shows "sublist m s"
proof -
  from re_search_Some [OF assms] obtain i where
    "(m, g) \<in> set (matches_at lib ic pat (drop i s))" by blast
  from matches_at_prefix [OF this] have "sublist m (drop i s)" by (rule prefix_imp_sublist)
  then show ?thesis using sublist_drop [of i s] by (rule sublist_order.order.trans)
qed

lemma memo_email: "extract_email basic (PStr memo) = Some (u ''bob.smith@example.com'')"
  by code_simp

lemma memo_last_four: "extract_last_four basic (PStr memo) = Some (u ''1234'')"
  by code_simp

lemma first_group_Some:
  "first_group lib ps text = Some g \<Longrightarrow>
     \<exists>pat\<in>set ps. \<exists>m. re_search lib True pat text = Some (m, g)"
proof (induction ps)
  case Nil
  then show ?case by simp
next
  case (Cons pat ps)
  then show ?case by (cases "re_search lib True pat text") auto
qed

lemma capture_patterns: "\<forall>pat\<in>set patterns. capture pat = Some (Digit, 4, Some 4)"
  by (simp add: patterns_def one_def star_def plus_def opt_def group4_def)

lemma extract_email_sublist:
  assumes "extract_email lib (PStr text) = Some s"
  shows "sublist s text"
proof -
  from assms obtain g where "re_search lib False email_pattern text = Some (s, g)"
    by (auto split: if_splits option.splits)
  then show ?thesis by (rule re_search_sublist)
qed

lemma extract_last_four_digits:
  assumes "extract_last_four lib (PStr text) = Some s"
  shows "sublist s text \<and> length s = 4 \<and> (\<forall>c\<in>set s. isdecimal lib c)"
proof -
  from assms have "first_group lib patterns text = Some s" by (simp split: if_splits)
  from first_group_Some [OF this] obtain pat m where
    pat: "pat \<in> set patterns" and rs: "re_search lib True pat text = Some (m, s)" by blast
  from re_search_Some [OF rs] obtain i where
    mem: "(m, s) \<in> set (matches_at lib True pat (drop i text))" by blast
  from capture_patterns pat have "capture pat = Some (Digit, 4, Some 4)" by blast
  with matches_at_group [OF mem] have
    g: "sublist s m" "4 \<le> length s" "length s \<le> 4" "\<forall>x\<in>set s. isdecimal lib x"
    by simp_all
  from re_search_sublist [OF rs] g(1) have "sublist s text"
    by (rule sublist_order.order.trans [rotated])
  with g show ?thesis by simp
qed

lemma extract_returns_iff:
  "(\<exists>m. extract_skybox_metadata lib p = Inr m) \<longleftrightarrow> parses lib (replace_Z (createdDate p))"
  by (auto simp: extract_skybox_metadata_def parses_def Let_def split: sum.splits)

lemma score_ignores_email:
  "multiple_criteria_score lib (m\<lparr>meta_email := e\<rparr>) t = multiple_criteria_score lib m t"
  by (simp add: multiple_criteria_score_def cong: option.case_cong sum.case_cong)

text \<open>
  Claim C9. The extraction helpers return a string or nothing and raise on no
  argument: on \<^verbatim>\<open>None\<close>, on the empty string and on a value that is not a string they
  return nothing; an address they return occurs in the notes, and last-4 digits they
  return are four decimal digits that occur in the notes. The metadata of a purchase
  is extracted exactly when its creation date parses, whatever its notes are, with the
  two helpers applied to the notes (the empty string when the key is absent). A
  purchase without extractable last-4 digits is still scored by strategy 2, on the
  amount and date signals alone, and the address plays no part in the score.
\<close>

theorem extraction_helpers_absorb:
  "extract_email lib PNone = None \<and> extract_email lib (PStr []) = None
   \<and> extract_email lib (PInt n) = None
   \<and> extract_last_four lib PNone = None \<and> extract_last_four lib (PStr []) = None
   \<and> extract_last_four lib (PInt n) = None
   \<and> (\<forall>text s. extract_email lib (PStr text) = Some s \<longrightarrow> sublist s text)
   \<and> (\<forall>text s. extract_last_four lib (PStr text) = Some s \<longrightarrow>
          sublist s text \<and> length s = 4 \<and> (\<forall>c\<in>set s. isdecimal lib c))
   \<and> (\<forall>p. (\<exists>m. extract_skybox_metadata lib p = Inr m)
            \<longleftrightarrow> parses lib (replace_Z (createdDate p)))
   \<and> (\<forall>p m. extract_skybox_metadata lib p = Inr m \<longrightarrow>
          meta_email m = extract_email lib (get_default (internalNotes p) (PStr []))
        \<and> meta_last_four m = extract_last_four lib (get_default (internalNotes p) (PStr [])))
   \<and> (\<forall>m t dd. meta_last_four m = None
          \<and> float_diff (reveal_amount t) (meta_amount m) < 1
          \<and> date_diff lib (meta_created_date m) t = Inr dd \<longrightarrow>
          multiple_criteria_score lib m t =
            Inr (Some (sum_list (map weight
                         (signals (float_diff (reveal_amount t) (meta_amount m)) dd False)),
                       signals (float_diff (reveal_amount t) (meta_amount m)) dd False,
                       float_diff (reveal_amount t) (meta_amount m))))
   \<and> (\<forall>m t e. multiple_criteria_score lib (m\<lparr>meta_email := e\<rparr>) t
                 = multiple_criteria_score lib m t)"
proof -
  have none: "extract_email lib PNone = None" "extract_email lib (PStr []) = None"
    "extract_email lib (PInt n) = None" "extract_last_four lib PNone = None"
    "extract_last_four lib (PStr []) = None" "extract_last_four lib (PInt n) = None"
    by simp_all
  have fields: "meta_email m = extract_email lib (get_default (internalNotes p) (PStr []))
        \<and> meta_last_four m = extract_last_four lib (get_default (internalNotes p) (PStr []))"
    if "extract_skybox_metadata lib p = Inr m" for p m
    using extract_fields(5,6) [OF that] by simp
  have scored: "multiple_criteria_score lib m t =
            Inr (Some (sum_list (map weight
                         (signals (float_diff (reveal_amount t) (meta_amount m)) dd False)),
                       signals (float_diff (reveal_amount t) (meta_amount m)) dd False,
                       float_diff (reveal_amount t) (meta_amount m)))"
    if "meta_last_four m = None" "float_diff (reveal_amount t) (meta_amount m) < 1"
       "date_diff lib (meta_created_date m) t = Inr dd" for m t dd
  proof -
    from that(1) have "\<not> last_four_hit m t" by (simp add: last_four_hit_def)
    with score_signals [OF that(2,3)] show ?thesis by simp
  qed
  from none extract_email_sublist extract_last_four_digits extract_returns_iff fields scored
    score_ignores_email
  show ?thesis by blast
qed

theorem extraction_helpers_absorb_witness:
  "extract_email basic (PStr memo) = Some (u ''bob.smith@example.com'')
   \<and> sublist (u ''bob.smith@example.com'') memo
   \<and> extract_last_four basic (PStr memo) = Some (u ''1234'')
   \<and> sublist (u ''1234'') memo \<and> length (u ''1234'') = 4
   \<and> extract_skybox_metadata basic purchase2 = Inr meta2
   \<and> parses basic (replace_Z (createdDate purchase2))
   \<and> meta_last_four meta2 = None
   \<and> float_diff (reveal_amount txn10) (meta_amount meta2) < 1
   \<and> date_diff basic (meta_created_date meta2) txn10 = Inr 0
   \<and> multiple_criteria_score basic meta2 txn10 =
        Inr (Some (0.70, [''amount_exact'', ''date_same_day''], 0))"
proof -
  from extraction_helpers_absorb [of basic 0] memo_email memo_last_four extract_purchase2
  have "sublist (u ''bob.smith@example.com'') memo"
    "sublist (u ''1234'') memo \<and> length (u ''1234'') = 4"
    "parses basic (replace_Z (createdDate purchase2))"
    by blast+
  moreover have "meta_last_four meta2 = None" by (simp add: meta2_def)
  moreover have "float_diff (reveal_amount txn10) (meta_amount meta2) < 1"
    by (simp add: float_examples txn10_def meta2_def)
  moreover have "date_diff basic (meta_created_date meta2) txn10 = Inr 0"
    using date_diff_same_instant by (simp add: meta2_def)
  ultimately show ?thesis
    using memo_email memo_last_four extract_purchase2 score_meta2_txn10 by blast
qed

end
